theory Spec2Isabelle
  imports Main
begin

section \<open>Commands\<close>

text \<open>
  A Python exception that ends the run is a value of \<open>error\<close>. \<open>KeyError\<close> and
  \<open>ValueError\<close> carry what Python's message carries: the missing key, the literal that
  \<open>int()\<close> rejected. \<open>Diverges\<close> stands for the one loop of the source that could run
  forever (\<open>window_replace\<close> with a window of width 0, which no call site uses).
\<close>

datatype error =
    IndexError
  | KeyError string
  | ValueError string
  | AttributeError string
  | TypeError
  | NameError
  | OSError
  | Diverges

text \<open>
  An argument of a \<open>Command\<close> is a Python \<open>str\<close> or a Python \<open>int\<close> (unbounded).
\<close>

datatype arg = AStr string | AInt int

record Command =
  command :: string
  args :: "arg list"

definition Cmd :: "string \<Rightarrow> arg list \<Rightarrow> Command" where
  "Cmd c as = \<lparr>command = c, args = as\<rparr>"

subsection \<open>\<open>str\<close> of an argument and \<open>Command.symbolic\<close>\<close>

definition digit_char :: "nat \<Rightarrow> char" where
  "digit_char d = char_of (48 + d)"

function str_nat :: "nat \<Rightarrow> string" where
  "str_nat n = (if n < 10 then [digit_char n] else str_nat (n div 10) @ [digit_char (n mod 10)])"
  by pat_completeness auto
termination
  by (relation "measure id") auto

declare str_nat.simps [simp del]

definition str_int :: "int \<Rightarrow> string" where
  "str_int i = (if i < 0 then CHR ''-'' # str_nat (nat (- i)) else str_nat (nat i))"

fun str_arg :: "arg \<Rightarrow> string" where
  "str_arg (AStr s) = s"
| "str_arg (AInt i) = str_int i"

text \<open>\<open>' '.join(xs)\<close>\<close>

fun join_space :: "string list \<Rightarrow> string" where
  "join_space [] = []"
| "join_space [x] = x"
| "join_space (x # y # ys) = x @ CHR '' '' # join_space (y # ys)"

definition symbolic :: "Command \<Rightarrow> string" where
  "symbolic c = join_space (command c # map str_arg (args c))"

text \<open>\<open>args[i]\<close> on a tuple, for \<open>i \<ge> 0\<close>: out of range raises IndexError.\<close>

definition arg_at :: "arg list \<Rightarrow> nat \<Rightarrow> error + arg" where
  "arg_at as i = (if i < length as then Inr (as ! i) else Inl IndexError)"

section \<open>The patterns of \<open>match_code\<close>\<close>

text \<open>
  The source matches a command with \<open>re.match(pattern, command.symbolic())\<close>: the pattern
  has to match a prefix of the text, not all of it. The patterns of the source are made
  of literal text, \<open>.*\<close> (any run of characters other than a newline) and one alternation
  \<open>(eq|lt|gt|lte|gte)\<close>; \<open>rx\<close> has exactly these, and \<open>re_match\<close> is true when some way of
  matching the atoms in sequence from the start of the text exists.
\<close>

datatype rx = Lit string | DotStar | Alt "string list"

definition startswith :: "string \<Rightarrow> string \<Rightarrow> bool" where
  "startswith s l = (take (length l) s = l)"

fun re_match :: "rx list \<Rightarrow> string \<Rightarrow> bool" where
  "re_match [] s = True"
| "re_match (Lit l # rs) s = (startswith s l \<and> re_match rs (drop (length l) s))"
| "re_match (DotStar # rs) s =
     list_ex (\<lambda>k. re_match rs (drop k s))
       [0 ..< Suc (length (takeWhile (\<lambda>c. c \<noteq> CHR 0x0A) s))]"
| "re_match (Alt ls # rs) s =
     list_ex (\<lambda>l. startswith s l \<and> re_match rs (drop (length l) s)) ls"

text \<open>
  \<open>match_code(expr, commands, exclude)\<close>. The third argument is named \<open>exclude\<close> in the
  source and the window matches when it is absent or returns False.
\<close>

definition match_code ::
  "rx list list \<Rightarrow> Command list \<Rightarrow> (Command list \<Rightarrow> bool) option \<Rightarrow> bool" where
  "match_code expr commands exclude =
     (if length expr \<noteq> length commands then False
      else if list_all (\<lambda>(pattern, c). re_match pattern (symbolic c)) (zip expr commands)
      then (case exclude of None \<Rightarrow> True | Some ex \<Rightarrow> \<not> ex commands)
      else False)"

section \<open>\<open>window_replace\<close>\<close>

text \<open>
  The generator \<open>window_replace(seq, match, sub, n)\<close> as the list of what it yields.
  \<open>result\<close> is the current window and \<open>it\<close> what the iterator has not handed out yet;
  \<open>advance()\<close> is \<open>take n it\<close>. On a match the replacement is yielded and the window is
  refilled; otherwise the head of the window is yielded and the window slides by one.
  When the window is shorter than \<open>n\<close> the loop ends and the window is yielded as it is.
  \<open>sub\<close> can raise (it indexes \<open>args\<close>), so the result is a sum. With \<open>n = 0\<close> the
  window is empty: when it matches, the Python loop never makes progress, and when it
  does not, \<open>result[0]\<close> raises IndexError. Every call site passes \<open>len(expr)\<close>, 2 or 3.
\<close>

function window_loop ::
  "(Command list \<Rightarrow> bool) \<Rightarrow> (Command list \<Rightarrow> error + Command list) \<Rightarrow> nat \<Rightarrow>
   Command list \<Rightarrow> Command list \<Rightarrow> error + Command list" where
  "window_loop match sub n result it =
     (if n = 0 then
        (if match result then (case sub result of Inl e \<Rightarrow> Inl e | Inr ss \<Rightarrow> Inl Diverges)
         else Inl IndexError)
      else if length result = n then
        (if match result then
           (case sub result of
              Inl e \<Rightarrow> Inl e
            | Inr ss \<Rightarrow>
               (case window_loop match sub n (take n it) (drop n it) of
                  Inl e \<Rightarrow> Inl e
                | Inr rest \<Rightarrow> Inr (ss @ rest)))
         else
           (case window_loop match sub n (tl result @ take 1 it) (drop 1 it) of
              Inl e \<Rightarrow> Inl e
            | Inr rest \<Rightarrow> Inr (hd result # rest)))
      else Inr result)"
  by pat_completeness auto
termination
  by (relation "measure (\<lambda>(match, sub, n, result, it). length result + length it)") auto

declare window_loop.simps [simp del]

definition window_replace ::
  "Command list \<Rightarrow> (Command list \<Rightarrow> bool) \<Rightarrow> (Command list \<Rightarrow> error + Command list) \<Rightarrow> nat \<Rightarrow>
   error + Command list" where
  "window_replace seq match sub n = window_loop match sub n (take n seq) (drop n seq)"

definition rewrite ::
  "rx list list \<Rightarrow> Command list \<Rightarrow> (Command list \<Rightarrow> error + Command list) \<Rightarrow>
   (Command list \<Rightarrow> bool) option \<Rightarrow> error + Command list" where
  "rewrite expr commands replace exclude =
     window_replace commands (\<lambda>w. match_code expr w exclude) replace (length expr)"

section \<open>The peephole pass: \<open>Optimizer.optimize\<close>\<close>

definition bind_err :: "error + 'a \<Rightarrow> ('a \<Rightarrow> error + 'b) \<Rightarrow> error + 'b" where
  "bind_err m f = (case m of Inl e \<Rightarrow> Inl e | Inr x \<Rightarrow> f x)"

text \<open>
  The eleven rewrites, in the order of the source. Each is \<open>list(rewrite(expr, commands,
  replace, exclude))\<close> with the pattern list, the replacement lambda and the exclusion
  lambda of the source. \<open>w ! i\<close> is \<open>w[i]\<close>: the window has the length of the pattern
  list whenever the replacement or the exclusion is called.
\<close>

text \<open>\<open>['push constant .*', 'not']\<close> to \<open>push constant~ K\<close>\<close>

definition rw_push_constant_not :: "Command list \<Rightarrow> error + Command list" where
  "rw_push_constant_not commands =
     rewrite [[Lit ''push constant '', DotStar], [Lit ''not'']] commands
       (\<lambda>w. bind_err (arg_at (args (w ! 0)) 1)
              (\<lambda>k. Inr [Cmd ''push'' [AStr ''constant~'', k]]))
       None"

text \<open>\<open>['push constant .*', 'neg']\<close> to \<open>push constant- K\<close>\<close>

definition rw_push_constant_neg :: "Command list \<Rightarrow> error + Command list" where
  "rw_push_constant_neg commands =
     rewrite [[Lit ''push constant '', DotStar], [Lit ''neg'']] commands
       (\<lambda>w. bind_err (arg_at (args (w ! 0)) 1)
              (\<lambda>k. Inr [Cmd ''push'' [AStr ''constant-'', k]]))
       None"

text \<open>\<open>['push constant 0', 'add']\<close> to nothing\<close>

definition rw_push_constant_0_add :: "Command list \<Rightarrow> error + Command list" where
  "rw_push_constant_0_add commands =
     rewrite [[Lit ''push constant 0''], [Lit ''add'']] commands (\<lambda>w. Inr []) None"

text \<open>\<open>['push constant 0', 'not']\<close> to \<open>push constant~ 0\<close>\<close>

definition rw_push_constant_0_not :: "Command list \<Rightarrow> error + Command list" where
  "rw_push_constant_0_not commands =
     rewrite [[Lit ''push constant 0''], [Lit ''not'']] commands
       (\<lambda>w. Inr [Cmd ''push'' [AStr ''constant~'', AInt 0]]) None"

text \<open>\<open>['lt', 'not']\<close> to \<open>gte\<close>\<close>

definition rw_lt_not :: "Command list \<Rightarrow> error + Command list" where
  "rw_lt_not commands =
     rewrite [[Lit ''lt''], [Lit ''not'']] commands (\<lambda>w. Inr [Cmd ''gte'' []]) None"

text \<open>\<open>['gt', 'not']\<close> to \<open>lte\<close>\<close>

definition rw_gt_not :: "Command list \<Rightarrow> error + Command list" where
  "rw_gt_not commands =
     rewrite [[Lit ''gt''], [Lit ''not'']] commands (\<lambda>w. Inr [Cmd ''lte'' []]) None"

text \<open>\<open>['push .*', '(eq|lt|gt|lte|gte)', 'if-goto .*']\<close> to \<open>if-CMP-goto\<close>\<close>

definition rw_cmp_if_goto :: "Command list \<Rightarrow> error + Command list" where
  "rw_cmp_if_goto commands =
     rewrite [[Lit ''push '', DotStar], [Alt [''eq'', ''lt'', ''gt'', ''lte'', ''gte'']],
              [Lit ''if-goto '', DotStar]] commands
       (\<lambda>w. bind_err (arg_at (args (w ! 0)) 0) (\<lambda>a0.
              bind_err (arg_at (args (w ! 0)) 1) (\<lambda>a1.
              bind_err (arg_at (args (w ! 2)) 0) (\<lambda>l.
              Inr [Cmd (''if-'' @ command (w ! 1) @ ''-goto'') [a0, a1, l]]))))
       None"

text \<open>\<open>['push .*', 'pop .*']\<close> to \<open>ldd\<close>, \<open>sdd\<close>\<close>

definition rw_push_pop :: "Command list \<Rightarrow> error + Command list" where
  "rw_push_pop commands =
     rewrite [[Lit ''push '', DotStar], [Lit ''pop '', DotStar]] commands
       (\<lambda>w. Inr [Cmd ''ldd'' (args (w ! 0)), Cmd ''sdd'' (args (w ! 1))])
       None"

text \<open>\<open>['push .*', 'inline-call .*', 'pop .*']\<close> to \<open>ldd\<close>, the marker, \<open>sdd\<close>\<close>

definition rw_push_inline_pop :: "Command list \<Rightarrow> error + Command list" where
  "rw_push_inline_pop commands =
     rewrite [[Lit ''push '', DotStar], [Lit ''inline-call '', DotStar], [Lit ''pop '', DotStar]]
       commands
       (\<lambda>w. Inr [Cmd ''ldd'' (args (w ! 0)), w ! 1, Cmd ''sdd'' (args (w ! 2))])
       None"

text \<open>
  \<open>['pop .*', 'push .*']\<close> to \<open>tee\<close>, with the fourth argument of the source,
  \<open>lambda w: w[0].args != w[1].args\<close>, passed as \<open>exclude\<close>.
\<close>

definition pop_push_exclude :: "Command list \<Rightarrow> bool" where
  "pop_push_exclude w = (args (w ! 0) \<noteq> args (w ! 1))"

definition rw_pop_push :: "Command list \<Rightarrow> error + Command list" where
  "rw_pop_push commands =
     rewrite [[Lit ''pop '', DotStar], [Lit ''push '', DotStar]] commands
       (\<lambda>w. Inr [Cmd ''tee'' (args (w ! 0))])
       (Some pop_push_exclude)"

text \<open>
  \<open>['if-goto .*', 'goto .*', 'label .*']\<close> to \<open>if-goto-not\<close>, excluded by
  \<open>lambda w: w[0].args != w[2].args\<close>.
\<close>

definition if_goto_exclude :: "Command list \<Rightarrow> bool" where
  "if_goto_exclude w = (args (w ! 0) \<noteq> args (w ! 2))"

definition rw_if_goto_goto_label :: "Command list \<Rightarrow> error + Command list" where
  "rw_if_goto_goto_label commands =
     rewrite [[Lit ''if-goto '', DotStar], [Lit ''goto '', DotStar], [Lit ''label '', DotStar]]
       commands
       (\<lambda>w. Inr [Cmd ''if-goto-not'' (args (w ! 1))])
       (Some if_goto_exclude)"

definition optimize_commands :: "Command list \<Rightarrow> error + Command list" where
  "optimize_commands commands =
     bind_err (rw_push_constant_not commands) (\<lambda>commands.
     bind_err (rw_push_constant_neg commands) (\<lambda>commands.
     bind_err (rw_push_constant_0_add commands) (\<lambda>commands.
     bind_err (rw_push_constant_0_not commands) (\<lambda>commands.
     bind_err (rw_lt_not commands) (\<lambda>commands.
     bind_err (rw_gt_not commands) (\<lambda>commands.
     bind_err (rw_cmp_if_goto commands) (\<lambda>commands.
     bind_err (rw_push_pop commands) (\<lambda>commands.
     bind_err (rw_push_inline_pop commands) (\<lambda>commands.
     bind_err (rw_pop_push commands) (\<lambda>commands.
     rw_if_goto_goto_label commands))))))))))"

section \<open>Functions and the function table\<close>

text \<open>
  \<open>Function.dependencies\<close> is a Python \<open>set\<close> from \<open>Function.__init__\<close> until
  \<open>Optimizer.inline\<close> replaces it by a \<open>list\<close>. A set is kept as the list of its
  elements in the order they were first added; the order in which Python iterates over it
  is not that order but one the interpreter chooses (for strings it depends on the hash
  seed of the process), and is a parameter of everything that iterates over a set.
  A function name is \<open>command.args[0]\<close>, hence an \<open>arg\<close>.
\<close>

datatype deps = DepSet "arg list" | DepList "arg list"

record Function =
  filename :: string
  function_name :: arg
  commands :: "Command list"
  dependencies :: deps

type_synonym table = "(arg \<times> Function) list"

text \<open>The members of a \<open>dependencies\<close> value, whatever its Python type.\<close>

fun dep_names :: "deps \<Rightarrow> arg list" where
  "dep_names (DepSet xs) = xs"
| "dep_names (DepList xs) = xs"

text \<open>Iterating over a \<open>dependencies\<close> value: a set in the interpreter's order.\<close>

fun dep_iter :: "(arg list \<Rightarrow> arg list) \<Rightarrow> deps \<Rightarrow> arg list" where
  "dep_iter ord (DepSet xs) = ord xs"
| "dep_iter ord (DepList xs) = xs"

text \<open>\<open>dependencies.add(name)\<close> on the set of a fresh Function.\<close>

fun dep_add :: "arg \<Rightarrow> deps \<Rightarrow> error + deps" where
  "dep_add x (DepSet xs) = Inr (DepSet (if x \<in> set xs then xs else xs @ [x]))"
| "dep_add x (DepList xs) = Inl (AttributeError ''add'')"

text \<open>
  The dict \<open>functions\<close>: \<open>d[k]\<close> raises KeyError on a missing key, \<open>d[k] = v\<close> replaces
  the value of a key that is present and appends a new key otherwise.
\<close>

definition dict_get :: "table \<Rightarrow> arg \<Rightarrow> error + Function" where
  "dict_get d k = (case map_of d k of None \<Rightarrow> Inl (KeyError (str_arg k)) | Some f \<Rightarrow> Inr f)"

fun dict_set :: "table \<Rightarrow> arg \<Rightarrow> Function \<Rightarrow> table" where
  "dict_set [] k v = [(k, v)]"
| "dict_set ((k', v') # d) k v = (if k' = k then (k, v) # d else (k', v') # dict_set d k v)"

definition is_call :: "Command \<Rightarrow> bool" where
  "is_call c = (command c = ''call'' \<or> command c = ''call-ext'')"

definition is_function_decl :: "Command \<Rightarrow> bool" where
  "is_function_decl c = (command c = ''function'' \<or> command c = ''function-ext'')"

text \<open>\<open>Function.append\<close>\<close>

definition Function_append :: "Function \<Rightarrow> Command \<Rightarrow> error + Function" where
  "Function_append f c =
     (let f' = f\<lparr>commands := commands f @ [c]\<rparr> in
      if is_call c then
        bind_err (arg_at (args c) 0) (\<lambda>name.
        bind_err (dep_add name (dependencies f')) (\<lambda>d.
        Inr (f'\<lparr>dependencies := d\<rparr>)))
      else Inr f')"

text \<open>
  The state of a \<open>Preassembler\<close>. \<open>current_function\<close> is a reference to the Function
  object that \<open>functions\<close> holds under its name, so it is kept as that name; \<open>None\<close> is
  Python's \<open>None\<close>. \<open>pre_filename\<close> is the attribute \<open>filename\<close> that \<open>translate\<close> sets
  before it parses a file.
\<close>

record Preassembler =
  "functions" :: table
  current_function :: "arg option"
  pre_filename :: string

definition Preassembler_init :: Preassembler where
  "Preassembler_init = \<lparr>functions = [], current_function = None, pre_filename = []\<rparr>"

text \<open>\<open>Preassembler.add\<close>\<close>

definition Preassembler_add :: "Preassembler \<Rightarrow> Command \<Rightarrow> error + Preassembler" where
  "Preassembler_add p c =
     bind_err
       (if is_function_decl c then
          bind_err (arg_at (args c) 0) (\<lambda>name.
          Inr (p\<lparr>functions := dict_set (functions p) name
                    \<lparr>filename = pre_filename p, function_name = name,
                     commands = [], dependencies = DepSet []\<rparr>,
                 current_function := Some name\<rparr>))
        else Inr p)
       (\<lambda>p.
          case current_function p of
            None \<Rightarrow> Inl (AttributeError ''append'')
          | Some cur \<Rightarrow>
              bind_err (dict_get (functions p) cur) (\<lambda>f.
              bind_err (Function_append f c) (\<lambda>f'.
              Inr (p\<lparr>functions := dict_set (functions p) cur f'\<rparr>))))"

fun add_all :: "Preassembler \<Rightarrow> Command list \<Rightarrow> error + Preassembler" where
  "add_all p [] = Inr p"
| "add_all p (c # cs) = bind_err (Preassembler_add p c) (\<lambda>p'. add_all p' cs)"

section \<open>The inlining pass\<close>

definition is_constant_accessor :: "Function \<Rightarrow> bool" where
  "is_constant_accessor f =
     match_code [[Lit ''function'', DotStar], [Lit ''push constant '', DotStar], [Lit ''return'']]
       (commands f) None"

definition is_static_accessor :: "Function \<Rightarrow> bool" where
  "is_static_accessor f =
     match_code [[Lit ''function'', DotStar], [Lit ''push static '', DotStar], [Lit ''return'']]
       (commands f) None"

definition is_member_accessor :: "Function \<Rightarrow> bool" where
  "is_member_accessor f =
     match_code [[Lit ''function'', DotStar], [Lit ''push argument 0''], [Lit ''pop pointer 0''],
                 [Lit ''push this '', DotStar], [Lit ''return'']]
       (commands f) None"

text \<open>\<open>Optimizer.try_inline\<close>: \<open>None\<close> is Python's \<open>None\<close>.\<close>

definition try_inline :: "Function \<Rightarrow> error + Command list option" where
  "try_inline f =
     (if is_constant_accessor f then Inr (Some [commands f ! 1])
      else if is_static_accessor f then Inr (Some [commands f ! 1])
      else if is_member_accessor f then
        bind_err (arg_at (args (commands f ! 3)) 1) (\<lambda>i.
        Inr (Some [Cmd ''pop'' [AStr ''pointer'', AInt 1], Cmd ''push'' [AStr ''that'', i]]))
      else Inr None)"

text \<open>
  The loop of \<open>Optimizer.inline\<close> over \<open>function.commands\<close>, returning the two lists it
  builds. \<open>fn\<close> is the function being rewritten (the caller).
\<close>

fun inline_loop ::
  "Function \<Rightarrow> table \<Rightarrow> Command list \<Rightarrow> error + (Command list \<times> arg list)" where
  "inline_loop fn fs [] = Inr ([], [])"
| "inline_loop fn fs (c # cs) =
     (if is_call c then
        bind_err (arg_at (args c) 0) (\<lambda>called_function_name.
        bind_err (dict_get fs called_function_name) (\<lambda>inline_function.
        bind_err (try_inline inline_function) (\<lambda>inline_commands.
        bind_err (inline_loop fn fs cs) (\<lambda>(commands', dependencies').
        case inline_commands of
          Some ics \<Rightarrow>
            Inr (Cmd ''inline-call''
                   [AStr (filename inline_function), function_name inline_function]
                 # ics
                 @ [Cmd ''inline-return'' [AStr (filename fn), function_name fn]]
                 @ commands',
                 dependencies')
        | None \<Rightarrow> Inr (c # commands', called_function_name # dependencies')))))
      else
        bind_err (inline_loop fn fs cs) (\<lambda>(commands', dependencies').
        Inr (c # commands', dependencies')))"

definition inline :: "Function \<Rightarrow> table \<Rightarrow> error + Function" where
  "inline fn fs =
     bind_err (inline_loop fn fs (commands fn)) (\<lambda>(commands', dependencies').
     Inr (fn\<lparr>commands := commands', dependencies := DepList dependencies'\<rparr>))"

text \<open>\<open>Optimizer.optimize\<close>\<close>

definition optimize :: "Function \<Rightarrow> error + Function" where
  "optimize fn =
     bind_err (optimize_commands (commands fn)) (\<lambda>commands'.
     Inr (fn\<lparr>commands := commands'\<rparr>))"

section \<open>The parser\<close>

text \<open>
  A line is the text of one line of the file without its line terminator, over ASCII.
  \<open>is_space\<close> is what \<open>str.strip\<close> and the pattern \<open>\s\<close> take for whitespace there:
  tab, line feed, vertical tab, form feed, carriage return, the four separators
  0x1C to 0x1F and the space.
\<close>

definition is_space :: "char \<Rightarrow> bool" where
  "is_space c = (c \<in> set [CHR 0x09, CHR 0x0A, CHR 0x0B, CHR 0x0C, CHR 0x0D,
                           CHR 0x1C, CHR 0x1D, CHR 0x1E, CHR 0x1F, CHR 0x20])"

text \<open>\<open>re.sub('//.*$', '', line)\<close>: the text from the first \<open>//\<close> on is dropped.\<close>

fun strip_comment :: "string \<Rightarrow> string" where
  "strip_comment (c # d # cs) =
     (if c = CHR ''/'' \<and> d = CHR ''/'' then [] else c # strip_comment (d # cs))"
| "strip_comment cs = cs"

text \<open>\<open>line.strip()\<close>\<close>

definition strip :: "string \<Rightarrow> string" where
  "strip s = rev (dropWhile is_space (rev (dropWhile is_space s)))"

text \<open>\<open>re.sub('\s+', ' ', line)\<close>: every run of whitespace becomes one space.\<close>

function collapse_spaces :: "string \<Rightarrow> string" where
  "collapse_spaces [] = []"
| "collapse_spaces (c # cs) =
     (if is_space c then CHR '' '' # collapse_spaces (dropWhile is_space cs)
      else c # collapse_spaces cs)"
  by pat_completeness auto
termination
  by (relation "measure length") (auto simp: less_Suc_eq_le length_dropWhile_le)

text \<open>\<open>line.split(' ')\<close>: a new component starts after every single space.\<close>

fun split_space :: "string \<Rightarrow> string list" where
  "split_space [] = [[]]"
| "split_space (c # cs) =
     (if c = CHR '' '' then [] # split_space cs
      else (case split_space cs of
              w # ws \<Rightarrow> (c # w) # ws
            | [] \<Rightarrow> [[c]]))"

text \<open>
  \<open>int(s)\<close> on a token (which holds no whitespace): an optional sign, then decimal
  digits, where single underscores may stand between digits. Anything else raises
  ValueError. \<open>py_digits s prev acc\<close> reads the digits; \<open>prev\<close> says that the character
  before was a digit.
\<close>

definition is_digit :: "char \<Rightarrow> bool" where
  "is_digit c = (48 \<le> (of_char c :: nat) \<and> (of_char c :: nat) \<le> 57)"

fun py_digits :: "string \<Rightarrow> bool \<Rightarrow> nat \<Rightarrow> nat option" where
  "py_digits [] prev acc = (if prev then Some acc else None)"
| "py_digits (c # cs) prev acc =
     (if is_digit c then py_digits cs True (acc * 10 + (of_char c - 48))
      else if c = CHR ''_'' \<and> prev then py_digits cs False acc
      else None)"

definition py_int :: "string \<Rightarrow> error + arg" where
  "py_int s =
     (case (case s of
              c # cs \<Rightarrow>
                (if c = CHR ''+'' then map_option int (py_digits cs False 0)
                 else if c = CHR ''-'' then map_option (\<lambda>n. - int n) (py_digits cs False 0)
                 else map_option int (py_digits s False 0))
            | [] \<Rightarrow> None) of
        None \<Rightarrow> Inl (ValueError s)
      | Some i \<Rightarrow> Inr (AInt i))"

text \<open>
  The \<open>if\<close>/\<open>elif\<close> chain of \<open>Parser.__next__\<close> on the components of a line. \<open>None\<close>
  is the case in which no branch is taken (more than five components): nothing is
  returned and the \<open>while True\<close> loop goes on to the next line.
\<close>

definition parse_components :: "string list \<Rightarrow> error + Command option" where
  "parse_components components =
     (if length components = 1 then
        Inr (Some (Cmd (components ! 0) []))
      else if length components = 2 then
        Inr (Some (Cmd (components ! 0) [AStr (components ! 1)]))
      else if length components = 3 then
        bind_err (py_int (components ! 2)) (\<lambda>a2.
        Inr (Some (Cmd (components ! 0) [AStr (components ! 1), a2])))
      else if length components = 4 then
        bind_err (py_int (components ! 2)) (\<lambda>a2.
        bind_err (py_int (components ! 3)) (\<lambda>a3.
        Inr (Some (Cmd (components ! 0) [AStr (components ! 1), a2, a3]))))
      else if length components = 5 then
        bind_err (py_int (components ! 2)) (\<lambda>a2.
        bind_err (py_int (components ! 4)) (\<lambda>a4.
        Inr (Some (Cmd (components ! 0) [AStr (components ! 1), a2, AStr (components ! 3), a4]))))
      else Inr None)"

text \<open>The components of a line that is not empty after the comment and the blanks are gone.\<close>

definition components_of :: "string \<Rightarrow> string list" where
  "components_of line = split_space (collapse_spaces (strip (strip_comment line)))"

text \<open>
  \<open>Parser.__next__\<close> on the lines not read yet: the next Command with the lines left,
  or \<open>None\<close> when \<open>next(self.fp)\<close> raises StopIteration.
\<close>

fun Parser_next :: "string list \<Rightarrow> error + (Command \<times> string list) option" where
  "Parser_next [] = Inr None"
| "Parser_next (line # fp) =
     (if length (strip (strip_comment line)) = 0 then Parser_next fp
      else
        (case parse_components (components_of line) of
           Inl e \<Rightarrow> Inl e
         | Inr None \<Rightarrow> Parser_next fp
         | Inr (Some c) \<Rightarrow> Inr (Some (c, fp))))"

text \<open>\<open>for command in parser: preassembler.add(command)\<close>\<close>

function add_file :: "Preassembler \<Rightarrow> string list \<Rightarrow> error + Preassembler" where
  "add_file p fp =
     (case Parser_next fp of
        Inl e \<Rightarrow> Inl e
      | Inr None \<Rightarrow> Inr p
      | Inr (Some (c, fp')) \<Rightarrow>
          (case Preassembler_add p c of
             Inl e \<Rightarrow> Inl e
           | Inr p' \<Rightarrow> add_file p' fp'))"
  by pat_completeness auto
termination
proof (relation "measure (\<lambda>(p, fp). length fp)", goal_cases)
  case 1
  show ?case by simp
next
  case (2 p fp x2 x2a c fp' p')
  have "Parser_next xs = Inr (Some (c, fp')) \<Longrightarrow> length fp' < length xs" for xs
    by (induction xs) (auto split: if_splits sum.splits option.splits)
  with 2 show ?case by simp
qed

declare add_file.simps [simp del]

section \<open>Reachability\<close>

text \<open>
  \<open>Preassembler.reachable_functions\<close>. \<open>frontier.pop()\<close> takes the last element and
  \<open>frontier.extend\<close> appends at the end. \<open>seen\<close> is a set, kept as the list of its
  elements in the order they were added. \<open>ord\<close> is the order in which the interpreter
  iterates over a set.
\<close>

function reach_loop ::
  "(arg list \<Rightarrow> arg list) \<Rightarrow> table \<Rightarrow> arg list \<Rightarrow> arg list \<Rightarrow> error + arg list" where
  "reach_loop ord fs frontier seen =
     (if length frontier > 0 then
        (if last frontier \<in> set seen then reach_loop ord fs (butlast frontier) seen
         else
           (case dict_get fs (last frontier) of
              Inl e \<Rightarrow> Inl e
            | Inr f \<Rightarrow>
                reach_loop ord fs (butlast frontier @ dep_iter ord (dependencies f))
                  (seen @ [last frontier])))
      else Inr seen)"
  by pat_completeness auto
termination
proof (relation "measures [\<lambda>(ord, fs, frontier, seen). card (fst ` set fs - set seen),
                           \<lambda>(ord, fs, frontier, seen). length frontier]", goal_cases)
  case 1
  show ?case by simp
next
  case (2 ord fs frontier seen)
  then show ?case by simp
next
  case (3 ord fs frontier seen f)
  from 3(3) have "map_of fs (last frontier) = Some f"
    by (simp add: dict_get_def split: option.splits)
  then have mem: "last frontier \<in> fst ` set fs"
    by (metis map_of_SomeD fst_conv image_eqI)
  have "fst ` set fs - set (seen @ [last frontier]) \<subset> fst ` set fs - set seen"
    using mem 3(2) by auto
  then have "card (fst ` set fs - set (seen @ [last frontier])) < card (fst ` set fs - set seen)"
    by (intro psubset_card_mono) auto
  then show ?case by simp
qed

declare reach_loop.simps [simp del]

definition reachable_functions ::
  "(arg list \<Rightarrow> arg list) \<Rightarrow> table \<Rightarrow> arg \<Rightarrow> error + arg list" where
  "reachable_functions ord fs start_function = reach_loop ord fs [start_function] []"

section \<open>The code generator: \<open>ASMTranslator\<close>\<close>

text \<open>
  The emitter state. \<open>filename\<close> and \<open>function_name\<close> are set from a Function and, by
  the markers \<open>inline-call\<close> and \<open>inline-return\<close>, from the arguments of a Command.
  \<open>__init__\<close> is the only place of the source that sets the two counters to 0.
\<close>

record ASMTranslator =
  tr_filename :: arg
  tr_function_name :: arg
  call_index :: nat
  label_index :: nat

definition ASMTranslator_init :: ASMTranslator where
  "ASMTranslator_init =
     \<lparr>tr_filename = AStr [], tr_function_name = AStr [], call_index = 0, label_index = 0\<rparr>"

text \<open>\<open>'%d' % x\<close>: a \<open>str\<close> raises TypeError.\<close>

fun fmt_d :: "arg \<Rightarrow> error + string" where
  "fmt_d (AInt i) = Inr (str_int i)"
| "fmt_d (AStr s) = Inl TypeError"

text \<open>\<open>'@%d' % (5 + x)\<close>\<close>

fun fmt_5_plus :: "arg \<Rightarrow> error + string" where
  "fmt_5_plus (AInt i) = Inr (CHR ''@'' # str_int (5 + i))"
| "fmt_5_plus (AStr s) = Inl TypeError"

text \<open>\<open>'@%d' % i\<close>\<close>

definition at_d :: "arg \<Rightarrow> error + string" where
  "at_d i = bind_err (fmt_d i) (\<lambda>d. Inr (CHR ''@'' # d))"

text \<open>An instruction taken from an argument: \<open>out.write\<close> raises TypeError on an \<open>int\<close>.\<close>

fun instr_of :: "arg \<Rightarrow> error + string" where
  "instr_of (AStr s) = Inr s"
| "instr_of (AInt i) = Inl TypeError"

definition temp_register :: "arg \<Rightarrow> error + string" where
  "temp_register i = fmt_5_plus i"

text \<open>\<open>_pointer_registers[i]\<close>: Python counts a negative index from the end.\<close>

fun pointer_register :: "arg \<Rightarrow> error + string" where
  "pointer_register (AInt i) =
     (if i = 0 \<or> i = - 2 then Inr ''@THIS''
      else if i = 1 \<or> i = - 1 then Inr ''@THAT''
      else Inl IndexError)"
| "pointer_register (AStr s) = Inl TypeError"

definition memory_segments :: "(arg \<times> string) list" where
  "memory_segments =
     [(AStr ''local'', ''LCL''), (AStr ''argument'', ''ARG''),
      (AStr ''this'', ''THIS''), (AStr ''that'', ''THAT'')]"

definition in_memory_segments :: "arg \<Rightarrow> bool" where
  "in_memory_segments segment = (segment \<in> fst ` set memory_segments)"

definition memory_segment_address :: "arg \<Rightarrow> error + string" where
  "memory_segment_address segment =
     (case map_of memory_segments segment of
        None \<Rightarrow> Inl (KeyError (str_arg segment))
      | Some r \<Rightarrow> Inr (CHR ''@'' # r))"

definition static_address :: "ASMTranslator \<Rightarrow> arg \<Rightarrow> error + string" where
  "static_address tr i =
     bind_err (fmt_d i) (\<lambda>d. Inr (''@'' @ str_arg (tr_filename tr) @ ''.'' @ d))"

definition label_address :: "ASMTranslator \<Rightarrow> arg \<Rightarrow> string" where
  "label_address tr label = ''@'' @ str_arg (tr_function_name tr) @ ''$'' @ str_arg label"

definition label_label :: "ASMTranslator \<Rightarrow> arg \<Rightarrow> string" where
  "label_label tr label = ''('' @ str_arg (tr_function_name tr) @ ''$'' @ str_arg label @ '')''"

definition function_call_address :: "arg \<Rightarrow> string" where
  "function_call_address name = ''@'' @ str_arg name"

definition function_declaration_label :: "ASMTranslator \<Rightarrow> string" where
  "function_declaration_label tr = ''('' @ str_arg (tr_function_name tr) @ '')''"

text \<open>The text \<open>FuncName$ret.N\<close> that \<open>next_return_address_label\<close> builds.\<close>

definition return_label_text :: "arg \<Rightarrow> nat \<Rightarrow> string" where
  "return_label_text fname n = str_arg fname @ ''$ret.'' @ str_nat n"

text \<open>
  \<open>next_return_address_label\<close>: the pair (address, label) and the state after it,
  with \<open>call_index\<close> one higher.
\<close>

definition next_return_address_label :: "ASMTranslator \<Rightarrow> (string \<times> string) \<times> ASMTranslator" where
  "next_return_address_label tr =
     (let label = return_label_text (tr_function_name tr) (call_index tr) in
      ((''@'' @ label, ''('' @ label @ '')''), tr\<lparr>call_index := call_index tr + 1\<rparr>))"

definition next_address_label ::
  "ASMTranslator \<Rightarrow> string \<Rightarrow> (string \<times> string) \<times> ASMTranslator" where
  "next_address_label tr name =
     (let label = str_arg (tr_filename tr) @ ''.'' @ name @ ''.'' @ str_nat (label_index tr) in
      ((''@'' @ label, ''('' @ label @ '')''), tr\<lparr>label_index := label_index tr + 1\<rparr>))"

subsection \<open>Arithmetic and comparisons\<close>

definition asm_add :: "string list" where
  "asm_add = [''@SP'', ''AM=M-1'', ''D=M'', ''A=A-1'', ''M=D+M'']"

definition asm_sub :: "string list" where
  "asm_sub = [''@SP'', ''AM=M-1'', ''D=M'', ''A=A-1'', ''M=M-D'']"

definition asm_neg :: "string list" where
  "asm_neg = [''@SP'', ''A=M-1'', ''M=-M'']"

definition asm_and :: "string list" where
  "asm_and = [''@SP'', ''AM=M-1'', ''D=M'', ''A=A-1'', ''M=M&D'']"

definition asm_or :: "string list" where
  "asm_or = [''@SP'', ''AM=M-1'', ''D=M'', ''A=A-1'', ''M=M|D'']"

definition asm_not :: "string list" where
  "asm_not = [''@SP'', ''A=M-1'', ''M=!M'']"

definition asm_drop :: "string list" where
  "asm_drop = [''@SP'', ''AM=M-1'']"

definition asm_return :: "string list" where
  "asm_return = [''@pop_stack'', ''0; JMP'']"

definition asm_eq :: "ASMTranslator \<Rightarrow> string list \<times> ASMTranslator" where
  "asm_eq tr =
     (case next_address_label tr ''JEQ'' of
        ((address, label), tr') \<Rightarrow>
          ([''@SP'', ''AM=M-1'', ''D=M'', ''A=A-1'', ''D=M-D'', address, ''D; JEQ'', ''D=-1'',
            label, ''@SP'', ''A=M-1'', ''M=!D''], tr'))"

text \<open>
  \<open>_lt\<close>, \<open>_lte\<close>, \<open>_gt\<close> and \<open>_gte\<close> differ in the jump mnemonic only, which is also
  the name given to \<open>next_address_label\<close>.
\<close>

definition asm_compare :: "string \<Rightarrow> ASMTranslator \<Rightarrow> string list \<times> ASMTranslator" where
  "asm_compare jmp tr =
     (case next_address_label tr jmp of
        ((address, label), tr') \<Rightarrow>
          ([''@SP'', ''AM=M-1'', ''D=M'', ''A=A-1'', ''D=M-D'', address, ''D=D; '' @ jmp,
            ''A=A+1'', ''D=0; JMP'', label, ''D=-1'', ''@SP'', ''A=M-1'', ''M=D''], tr'))"

subsection \<open>Segments\<close>

text \<open>
  Sequencing for the lists the lowering builds: \<open>cons_err\<close> puts an instruction whose
  construction can raise in front of a list, \<open>app_err\<close> a list that is there in front
  of one whose construction can raise.
\<close>

definition cons_err :: "error + string \<Rightarrow> string list \<Rightarrow> error + string list" where
  "cons_err x xs = bind_err x (\<lambda>a. Inr (a # xs))"

definition app_err :: "string list \<Rightarrow> error + string list \<Rightarrow> error + string list" where
  "app_err xs m = bind_err m (\<lambda>ys. Inr (xs @ ys))"

text \<open>\<open>i < k\<close> and \<open>i > k\<close> for an \<open>int\<close> k: comparing a \<open>str\<close> raises TypeError.\<close>

fun arg_less :: "arg \<Rightarrow> int \<Rightarrow> error + bool" where
  "arg_less (AInt i) k = Inr (i < k)"
| "arg_less (AStr s) k = Inl TypeError"

fun arg_greater :: "arg \<Rightarrow> int \<Rightarrow> error + bool" where
  "arg_greater (AInt i) k = Inr (i > k)"
| "arg_greater (AStr s) k = Inl TypeError"

text \<open>\<open>['A=A+1'] * (i - 1)\<close>: a count below 1 gives the empty list.\<close>

fun inc_a_times :: "arg \<Rightarrow> string list" where
  "inc_a_times (AInt i) = replicate (nat (i - 1)) ''A=A+1''"
| "inc_a_times (AStr s) = []"

definition asm_ldd :: "ASMTranslator \<Rightarrow> arg \<Rightarrow> arg \<Rightarrow> error + string list" where
  "asm_ldd tr segment i =
     (if segment = AStr ''constant'' then
        (if i = AInt 0 then Inr [''D=0'']
         else if i = AInt 1 then Inr [''D=1'']
         else cons_err (at_d i) [''D=A''])
      else if segment = AStr ''constant~'' then cons_err (at_d i) [''D=!A'']
      else if segment = AStr ''constant-'' then cons_err (at_d i) [''D=-A'']
      else if segment = AStr ''static'' then cons_err (static_address tr i) [''D=M'']
      else if segment = AStr ''temp'' then cons_err (temp_register i) [''D=M'']
      else if segment = AStr ''pointer'' then cons_err (pointer_register i) [''D=M'']
      else if in_memory_segments segment then
        (if i = AInt 0 then cons_err (memory_segment_address segment) [''A=M'', ''D=M'']
         else if i = AInt 1 then cons_err (memory_segment_address segment) [''A=M+1'', ''D=M'']
         else
           bind_err (memory_segment_address segment) (\<lambda>a.
           bind_err (at_d i) (\<lambda>d.
           Inr [a, ''D=M'', d, ''A=D+A'', ''D=M''])))
      else Inr [''???''])"

definition asm_push :: "ASMTranslator \<Rightarrow> arg \<Rightarrow> arg \<Rightarrow> error + string list" where
  "asm_push tr segment i =
     (if segment = AStr ''constant'' then
        (if i = AInt 0 then Inr [''@SP'', ''AM=M+1'', ''A=A-1'', ''M=0'']
         else if i = AInt 1 then Inr [''@SP'', ''AM=M+1'', ''A=A-1'', ''M=1'']
         else cons_err (at_d i) [''D=A'', ''@SP'', ''AM=M+1'', ''A=A-1'', ''M=D''])
      else
        bind_err (asm_ldd tr segment i) (\<lambda>load.
        Inr (load @ [''@SP'', ''AM=M+1'', ''A=A-1'', ''M=D''])))"

definition asm_sdd :: "ASMTranslator \<Rightarrow> arg \<Rightarrow> arg \<Rightarrow> arg \<Rightarrow> error + string list" where
  "asm_sdd tr segment i op =
     (if segment = AStr ''static'' then
        bind_err (static_address tr i) (\<lambda>a. bind_err (instr_of op) (\<lambda>opi. Inr [a, opi]))
      else if segment = AStr ''temp'' then
        bind_err (temp_register i) (\<lambda>a. bind_err (instr_of op) (\<lambda>opi. Inr [a, opi]))
      else if segment = AStr ''pointer'' then
        bind_err (pointer_register i) (\<lambda>a. bind_err (instr_of op) (\<lambda>opi. Inr [a, opi]))
      else if in_memory_segments segment then
        (if i = AInt 0 then
           bind_err (memory_segment_address segment) (\<lambda>a.
           bind_err (instr_of op) (\<lambda>opi. Inr [a, ''A=M'', opi]))
         else
           bind_err (arg_less i 10) (\<lambda>small.
           if small then
             bind_err (memory_segment_address segment) (\<lambda>a.
             bind_err (instr_of op) (\<lambda>opi.
             Inr ([a, ''A=M+1''] @ inc_a_times i @ [opi])))
           else
             bind_err (memory_segment_address segment) (\<lambda>a.
             bind_err (at_d i) (\<lambda>d.
             bind_err (instr_of op) (\<lambda>opi.
             Inr [''@R14'', ''M=D'', a, ''D=M'', d, ''D=D+A'', ''@R13'', ''M=D'',
                  ''@R14'', ''D=M'', ''@R13'', ''A=M'', opi])))))
      else Inr [''???''])"

definition asm_pop :: "ASMTranslator \<Rightarrow> arg \<Rightarrow> arg \<Rightarrow> error + string list" where
  "asm_pop tr segment i =
     app_err [''@SP'', ''AM=M-1'', ''D=M''] (asm_sdd tr segment i (AStr ''M=D''))"

definition asm_tee :: "ASMTranslator \<Rightarrow> arg \<Rightarrow> arg \<Rightarrow> error + string list" where
  "asm_tee tr segment i =
     app_err [''@SP'', ''A=M-1'', ''D=M''] (asm_sdd tr segment i (AStr ''M=D''))"

definition asm_sto :: "ASMTranslator \<Rightarrow> arg \<Rightarrow> arg \<Rightarrow> arg \<Rightarrow> error + string list" where
  "asm_sto tr segment i op =
     (if segment = AStr ''constant'' then
        bind_err (at_d i) (\<lambda>a. bind_err (instr_of op) (\<lambda>opi. Inr [a, opi]))
      else if segment = AStr ''static'' then
        bind_err (static_address tr i) (\<lambda>a. bind_err (instr_of op) (\<lambda>opi. Inr [a, ''A=M'', opi]))
      else if in_memory_segments segment \<and> i = AInt 0 then
        bind_err (memory_segment_address segment) (\<lambda>a.
        bind_err (instr_of op) (\<lambda>opi. Inr [a, ''A=M'', ''A=M'', opi]))
      else if in_memory_segments segment \<and> i = AInt 1 then
        bind_err (memory_segment_address segment) (\<lambda>a.
        bind_err (instr_of op) (\<lambda>opi. Inr [a, ''A=M+1'', ''A=M'', opi]))
      else Inr [''???''])"

text \<open>
  \<open>_inc\<close> and \<open>_dec\<close> differ in the sign of the three instructions that change the
  cell: \<open>sign\<close> is \<open>+\<close> or \<open>-\<close>.
\<close>

definition asm_inc_dec ::
  "string \<Rightarrow> ASMTranslator \<Rightarrow> arg \<Rightarrow> arg \<Rightarrow> arg \<Rightarrow> error + string list" where
  "asm_inc_dec sign tr segment i step =
     bind_err (arg_greater step 1) (\<lambda>big.
     bind_err (if big then cons_err (at_d step) [''D=A''] else Inr []) (\<lambda>load.
     let op = (if big then ''M=M'' @ sign @ ''D'' else ''M=M'' @ sign @ ''1'') in
     if segment = AStr ''static'' then
       bind_err (static_address tr i) (\<lambda>a. Inr (load @ [a, op]))
     else if segment = AStr ''temp'' then
       bind_err (temp_register i) (\<lambda>a. Inr (load @ [a, op]))
     else if segment = AStr ''pointer'' then
       bind_err (pointer_register i) (\<lambda>a. Inr (load @ [a, op]))
     else if in_memory_segments segment \<and> i = AInt 0 then
       bind_err (memory_segment_address segment) (\<lambda>a. Inr (load @ [a, ''A=M'', op]))
     else if in_memory_segments segment \<and> i = AInt 1 then
       bind_err (memory_segment_address segment) (\<lambda>a. Inr (load @ [a, ''A=M+1'', op]))
     else if in_memory_segments segment \<and> step = AInt 1 then
       bind_err (memory_segment_address segment) (\<lambda>a.
       bind_err (at_d i) (\<lambda>d.
       Inr [a, ''D=M'', d, ''A=D+A'', ''M=M'' @ sign @ ''1'']))
     else Inr [''???'']))"

definition asm_inv :: "ASMTranslator \<Rightarrow> arg \<Rightarrow> arg \<Rightarrow> error + string list" where
  "asm_inv tr segment i =
     (if segment = AStr ''static'' then cons_err (static_address tr i) [''M=!M'']
      else if segment = AStr ''temp'' then cons_err (temp_register i) [''M=!M'']
      else if segment = AStr ''pointer'' then cons_err (pointer_register i) [''M=!M'']
      else if in_memory_segments segment then
        (if i = AInt 0 then cons_err (memory_segment_address segment) [''A=M'', ''M=!M'']
         else if i = AInt 1 then cons_err (memory_segment_address segment) [''A=M+1'', ''M=!M'']
         else
           bind_err (memory_segment_address segment) (\<lambda>a.
           bind_err (at_d i) (\<lambda>d.
           Inr [a, ''D=M'', d, ''A=D+A'', ''M=!M''])))
      else Inr [''???''])"

text \<open>
  \<open>_poke\<close>. When \<open>from_segment\<close> is none of the three constant segments the locals
  \<open>value\<close> and \<open>op\<close> stay unbound, and the branches that read them raise
  UnboundLocalError, a NameError. Two branches read the name \<open>segment\<close>, which is not
  defined in \<open>_poke\<close>: they raise NameError too.
\<close>

definition poke_value :: "arg \<Rightarrow> arg \<Rightarrow> error + (string list \<times> string) option" where
  "poke_value from_segment j =
     (if from_segment = AStr ''constant'' then
        (if j = AInt 0 then Inr (Some ([], ''M=0''))
         else if j = AInt 1 then Inr (Some ([], ''M=1''))
         else bind_err (at_d j) (\<lambda>a. Inr (Some ([a, ''D=A''], ''M=D''))))
      else if from_segment = AStr ''constant~'' then
        bind_err (at_d j) (\<lambda>a. Inr (Some ([a, ''D=!A''], ''M=D'')))
      else if from_segment = AStr ''constant-'' then
        bind_err (at_d j) (\<lambda>a. Inr (Some ([a, ''D=-A''], ''M=D'')))
      else Inr None)"

definition bound :: "(string list \<times> string) option \<Rightarrow> error + (string list \<times> string)" where
  "bound v = (case v of None \<Rightarrow> Inl NameError | Some x \<Rightarrow> Inr x)"

definition asm_poke :: "ASMTranslator \<Rightarrow> arg \<Rightarrow> arg \<Rightarrow> arg \<Rightarrow> arg \<Rightarrow> error + string list" where
  "asm_poke tr to_segment i from_segment j =
     bind_err (poke_value from_segment j) (\<lambda>v.
     if to_segment = AStr ''constant'' then
       bind_err (bound v) (\<lambda>(load, op). Inr (load @ [''@'' @ str_arg i, op]))
     else if to_segment = AStr ''static'' then
       bind_err (bound v) (\<lambda>(load, op).
       bind_err (static_address tr i) (\<lambda>a. Inr (load @ [a, ''A=M'', op])))
     else if in_memory_segments to_segment then
       (if i = AInt 0 then
          bind_err (bound v) (\<lambda>(load, op).
          bind_err (memory_segment_address to_segment) (\<lambda>a.
          Inr (load @ [a, ''A=M'', ''A=M'', op])))
        else
          bind_err (arg_less i 8) (\<lambda>small. Inl NameError))
     else Inr [''???''])"

subsection \<open>Branches\<close>

definition asm_label :: "ASMTranslator \<Rightarrow> arg \<Rightarrow> string list" where
  "asm_label tr label = [label_label tr label]"

definition asm_goto :: "ASMTranslator \<Rightarrow> arg \<Rightarrow> string list" where
  "asm_goto tr label = [label_address tr label, ''0; JMP'']"

text \<open>
  \<open>_if_eq_goto\<close>, \<open>_if_lt_goto\<close>, \<open>_if_lte_goto\<close>, \<open>_if_gt_goto\<close> and \<open>_if_gte_goto\<close>
  (defined twice, with the same body) differ in the jump mnemonic only.
\<close>

definition asm_if_cmp_goto ::
  "string \<Rightarrow> ASMTranslator \<Rightarrow> arg \<Rightarrow> arg \<Rightarrow> arg \<Rightarrow> error + string list" where
  "asm_if_cmp_goto jmp tr segment i label =
     bind_err
       (if segment = AStr ''constant'' then
          (if i = AInt 0 then Inr ([], ''D=M'')
           else if i = AInt 1 then Inr ([], ''D=M-1'')
           else bind_err (at_d i) (\<lambda>a. Inr ([a, ''D=A''], ''D=M-D'')))
        else bind_err (asm_ldd tr segment i) (\<lambda>load. Inr (load, ''D=M-D'')))
       (\<lambda>(load, op).
          Inr (load @ [''@SP'', ''AM=M-1'', op, label_address tr label, ''D; '' @ jmp]))"

definition asm_if_goto :: "ASMTranslator \<Rightarrow> arg \<Rightarrow> string list" where
  "asm_if_goto tr label = [''@SP'', ''AM=M-1'', ''D=M'', label_address tr label, ''D; JNE'']"

definition asm_if_goto_not :: "ASMTranslator \<Rightarrow> arg \<Rightarrow> string list" where
  "asm_if_goto_not tr label = [''@SP'', ''AM=M-1'', ''D=M'', label_address tr label, ''D; JEQ'']"

subsection \<open>Functions, calls and the shared routines\<close>

text \<open>
  The part of \<open>_function\<close> and \<open>_function_ext\<close> after the label: nothing for
  \<open>vars = 0\<close>, else the zeroing of \<open>vars\<close> cells (\<open>range(0, vars)\<close> is empty for a
  negative \<open>vars\<close> and raises TypeError for a \<open>str\<close>).
\<close>

fun zero_locals :: "arg \<Rightarrow> error + string list" where
  "zero_locals (AInt v) =
     (if v = 0 then Inr []
      else Inr ([''@SP'', ''A=M''] @ concat (replicate (nat v) [''M=0'', ''AD=A+1''])
                @ [''@SP'', ''M=D'']))"
| "zero_locals (AStr s) = Inl TypeError"

definition asm_function ::
  "ASMTranslator \<Rightarrow> arg \<Rightarrow> arg \<Rightarrow> error + (string list \<times> ASMTranslator)" where
  "asm_function tr name vars =
     (let tr' = tr\<lparr>tr_function_name := name\<rparr> in
      bind_err (zero_locals vars) (\<lambda>z.
      Inr (function_declaration_label tr' # z, tr')))"

definition asm_function_ext ::
  "ASMTranslator \<Rightarrow> arg \<Rightarrow> arg \<Rightarrow> arg \<Rightarrow> error + (string list \<times> ASMTranslator)" where
  "asm_function_ext tr name vars nargs =
     (case next_return_address_label tr of
        ((address, label), tr1) \<Rightarrow>
          (let tr' = tr1\<lparr>tr_function_name := name\<rparr> in
           bind_err
             (if name \<noteq> AStr ''Sys.init'' then
                bind_err (fmt_5_plus nargs) (\<lambda>n.
                Inr [''@R13'', ''M=D'', n, ''D=A'', ''@R14'', ''M=D'', address, ''D=A'',
                     ''@save_stack'', ''0; JMP'', label])
              else Inr [])
             (\<lambda>handshake.
                bind_err (zero_locals vars) (\<lambda>z.
                Inr (function_declaration_label tr' # handshake @ z, tr')))))"

definition asm_push_register :: "arg \<Rightarrow> error + string list" where
  "asm_push_register address =
     cons_err (instr_of address) [''D=M'', ''@SP'', ''AM=M+1'', ''A=A-1'', ''M=D'']"

fun asm_push_registers :: "arg list \<Rightarrow> error + string list" where
  "asm_push_registers [] = Inr []"
| "asm_push_registers (a # as) =
     bind_err (asm_push_register a) (\<lambda>x.
     bind_err (asm_push_registers as) (\<lambda>xs. Inr (x @ xs)))"

definition asm_pop_register_lcl :: "arg \<Rightarrow> error + string list" where
  "asm_pop_register_lcl address =
     bind_err (instr_of address) (\<lambda>a. Inr [''@LCL'', ''AM=M-1'', ''D=M'', a, ''M=D''])"

fun asm_pop_registers_lcl :: "arg list \<Rightarrow> error + string list" where
  "asm_pop_registers_lcl [] = Inr []"
| "asm_pop_registers_lcl (a # as) =
     bind_err (asm_pop_register_lcl a) (\<lambda>x.
     bind_err (asm_pop_registers_lcl as) (\<lambda>xs. Inr (x @ xs)))"

definition asm_call ::
  "ASMTranslator \<Rightarrow> arg \<Rightarrow> arg \<Rightarrow> error + (string list \<times> ASMTranslator)" where
  "asm_call tr name nargs =
     (case next_return_address_label tr of
        ((address, label), tr') \<Rightarrow>
          bind_err (fmt_5_plus nargs) (\<lambda>n.
          Inr ([function_call_address name, ''D=A'', ''@R13'', ''M=D'', n, ''D=A'',
                ''@R14'', ''M=D'', address, ''D=A'', ''@save_stack'', ''0; JMP'', label], tr')))"

definition asm_call_ext :: "ASMTranslator \<Rightarrow> arg \<Rightarrow> string list \<times> ASMTranslator" where
  "asm_call_ext tr name =
     (case next_return_address_label tr of
        ((address, label), tr') \<Rightarrow>
          ([address, ''D=A'', function_call_address name, ''0; JMP'', label], tr'))"

definition asm_save_stack :: "ASMTranslator \<Rightarrow> string list \<times> ASMTranslator" where
  "asm_save_stack tr =
     (case next_address_label tr ''save_stack'' of
        ((address, label), tr') \<Rightarrow>
          ([''(save_stack)'', ''@R15'', ''M=D'', ''@R13'', ''D=M'', ''@SP'', ''AM=M+1'',
            ''A=A-1'', ''M=D'']
           @ concat (map (\<lambda>a. [a, ''D=M'', ''@SP'', ''AM=M+1'', ''A=A-1'', ''M=D''])
                      [''@LCL'', ''@ARG'', ''@THIS'', ''@THAT''])
           @ [''@SP'', ''D=M'', ''@R14'', ''D=D-M'', ''@ARG'', ''M=D'', ''@SP'', ''D=M'',
              ''@LCL'', ''M=D'', ''@R15'', ''A=M'', ''0; JMP''], tr'))"

definition asm_pop_stack :: "string list" where
  "asm_pop_stack =
     [''(pop_stack)'', ''@LCL'', ''D=M'', ''@5'', ''A=D-A'', ''D=M'', ''@R13'', ''M=D'',
      ''@SP'', ''A=M-1'', ''D=M'', ''@ARG'', ''A=M'', ''M=D'', ''D=A+1'', ''@SP'', ''M=D'']
     @ concat (map (\<lambda>a. [''@LCL'', ''AM=M-1'', ''D=M'', a, ''M=D''])
                [''@THAT'', ''@THIS'', ''@ARG'', ''@LCL''])
     @ [''@R13'', ''A=M'', ''0; JMP'']"

definition asm_init_vm :: "ASMTranslator \<Rightarrow> string list \<times> ASMTranslator" where
  "asm_init_vm tr =
     (case next_address_label tr ''init_vm'' of
        ((address, label), tr1) \<Rightarrow>
          (case asm_save_stack tr1 of
             (save, tr2) \<Rightarrow>
               ([''@256'', ''D=A'', ''@SP'', ''M=D'', function_call_address (AStr ''Sys.init''),
                 ''0; JMP''] @ save @ asm_pop_stack, tr2)))"

text \<open>\<open>_inline_call\<close> and \<open>_inline_return\<close> have the same body.\<close>

definition asm_inline_scope :: "ASMTranslator \<Rightarrow> arg \<Rightarrow> arg \<Rightarrow> ASMTranslator" where
  "asm_inline_scope tr fname name =
     tr\<lparr>tr_filename := fname, tr_function_name := name\<rparr>"

subsection \<open>Dispatch: \<open>Command.visit\<close>\<close>

text \<open>
  \<open>visit\<close> looks up the method \<open>'_' + command.replace('-', '_')\<close> with \<open>getattr\<close>
  and calls it with the arguments of the Command: a name that is no method raises
  AttributeError, a wrong number of arguments TypeError. (Names that reach one of
  Python's special attributes, of the form \<open>_x__\<close>, are treated as unknown here.)
\<close>

definition method_name :: "Command \<Rightarrow> string" where
  "method_name c = map (\<lambda>ch. if ch = CHR ''-'' then CHR ''_'' else ch) (command c)"

definition call0 :: "arg list \<Rightarrow> 'a \<Rightarrow> error + 'a" where
  "call0 as r = (case as of [] \<Rightarrow> Inr r | _ \<Rightarrow> Inl TypeError)"

definition call1 :: "arg list \<Rightarrow> (arg \<Rightarrow> error + 'a) \<Rightarrow> error + 'a" where
  "call1 as f = (case as of [a] \<Rightarrow> f a | _ \<Rightarrow> Inl TypeError)"

definition call2 :: "arg list \<Rightarrow> (arg \<Rightarrow> arg \<Rightarrow> error + 'a) \<Rightarrow> error + 'a" where
  "call2 as f = (case as of [a, b] \<Rightarrow> f a b | _ \<Rightarrow> Inl TypeError)"

definition call3 :: "arg list \<Rightarrow> (arg \<Rightarrow> arg \<Rightarrow> arg \<Rightarrow> error + 'a) \<Rightarrow> error + 'a" where
  "call3 as f = (case as of [a, b, c] \<Rightarrow> f a b c | _ \<Rightarrow> Inl TypeError)"

definition call4 ::
  "arg list \<Rightarrow> (arg \<Rightarrow> arg \<Rightarrow> arg \<Rightarrow> arg \<Rightarrow> error + 'a) \<Rightarrow> error + 'a" where
  "call4 as f = (case as of [a, b, c, d] \<Rightarrow> f a b c d | _ \<Rightarrow> Inl TypeError)"

text \<open>\<open>_sdd\<close> and \<open>_sto\<close> take \<open>op='M=D'\<close> as an optional third argument.\<close>

definition call2_op ::
  "arg list \<Rightarrow> (arg \<Rightarrow> arg \<Rightarrow> arg \<Rightarrow> error + 'a) \<Rightarrow> error + 'a" where
  "call2_op as f =
     (case as of
        [a, b] \<Rightarrow> f a b (AStr ''M=D'')
      | [a, b, c] \<Rightarrow> f a b c
      | _ \<Rightarrow> Inl TypeError)"

text \<open>A method that leaves the emitter state as it is.\<close>

definition keep :: "ASMTranslator \<Rightarrow> error + string list \<Rightarrow> error + (string list \<times> ASMTranslator)" where
  "keep tr m = bind_err m (\<lambda>ls. Inr (ls, tr))"

definition visit :: "ASMTranslator \<Rightarrow> Command \<Rightarrow> error + (string list \<times> ASMTranslator)" where
  "visit tr c =
     (let m = method_name c; as = args c in
      if m = ''init_vm'' then call0 as (asm_init_vm tr)
      else if m = ''add'' then call0 as (asm_add, tr)
      else if m = ''sub'' then call0 as (asm_sub, tr)
      else if m = ''neg'' then call0 as (asm_neg, tr)
      else if m = ''eq'' then call0 as (asm_eq tr)
      else if m = ''lt'' then call0 as (asm_compare ''JLT'' tr)
      else if m = ''lte'' then call0 as (asm_compare ''JLE'' tr)
      else if m = ''gt'' then call0 as (asm_compare ''JGT'' tr)
      else if m = ''gte'' then call0 as (asm_compare ''JGE'' tr)
      else if m = ''and'' then call0 as (asm_and, tr)
      else if m = ''or'' then call0 as (asm_or, tr)
      else if m = ''not'' then call0 as (asm_not, tr)
      else if m = ''push'' then keep tr (call2 as (asm_push tr))
      else if m = ''poke'' then keep tr (call4 as (asm_poke tr))
      else if m = ''ldd'' then keep tr (call2 as (asm_ldd tr))
      else if m = ''sto'' then keep tr (call2_op as (asm_sto tr))
      else if m = ''inc'' then keep tr (call3 as (asm_inc_dec ''+'' tr))
      else if m = ''dec'' then keep tr (call3 as (asm_inc_dec ''-'' tr))
      else if m = ''inv'' then keep tr (call2 as (asm_inv tr))
      else if m = ''drop'' then call0 as (asm_drop, tr)
      else if m = ''sdd'' then keep tr (call2_op as (asm_sdd tr))
      else if m = ''pop'' then keep tr (call2 as (asm_pop tr))
      else if m = ''tee'' then keep tr (call2 as (asm_tee tr))
      else if m = ''label'' then call1 as (\<lambda>l. Inr (asm_label tr l, tr))
      else if m = ''goto'' then call1 as (\<lambda>l. Inr (asm_goto tr l, tr))
      else if m = ''if_eq_goto'' then keep tr (call3 as (asm_if_cmp_goto ''JEQ'' tr))
      else if m = ''if_lt_goto'' then keep tr (call3 as (asm_if_cmp_goto ''JLT'' tr))
      else if m = ''if_lte_goto'' then keep tr (call3 as (asm_if_cmp_goto ''JLE'' tr))
      else if m = ''if_gt_goto'' then keep tr (call3 as (asm_if_cmp_goto ''JGT'' tr))
      else if m = ''if_gte_goto'' then keep tr (call3 as (asm_if_cmp_goto ''JGE'' tr))
      else if m = ''if_goto'' then call1 as (\<lambda>l. Inr (asm_if_goto tr l, tr))
      else if m = ''if_goto_not'' then call1 as (\<lambda>l. Inr (asm_if_goto_not tr l, tr))
      else if m = ''function_ext'' then call3 as (asm_function_ext tr)
      else if m = ''function'' then call2 as (asm_function tr)
      else if m = ''push_registers'' then keep tr (asm_push_registers as)
      else if m = ''push_register'' then keep tr (call1 as asm_push_register)
      else if m = ''pop_registers_lcl'' then keep tr (asm_pop_registers_lcl as)
      else if m = ''pop_register_lcl'' then keep tr (call1 as asm_pop_register_lcl)
      else if m = ''call'' then call2 as (asm_call tr)
      else if m = ''call_ext'' then call1 as (\<lambda>f. Inr (asm_call_ext tr f))
      else if m = ''save_stack'' then call0 as (asm_save_stack tr)
      else if m = ''pop_stack'' then call0 as (asm_pop_stack, tr)
      else if m = ''return'' then call0 as (asm_return, tr)
      else if m = ''inline_call'' then call2 as (\<lambda>f n. Inr ([], asm_inline_scope tr f n))
      else if m = ''inline_return'' then call2 as (\<lambda>f n. Inr ([], asm_inline_scope tr f n))
      else Inl (AttributeError (CHR ''_'' # m)))"

section \<open>Emission\<close>

text \<open>
  What \<open>translate\<close> writes to the output file, one value per line written. The bytes of
  the file are \<open>file_text\<close>: every line rendered and ended by a line feed. An
  instruction that is not a label carries the running global line number.
\<close>

datatype out_line =
    ProgramLine string
  | BeginLine arg
  | CommandLine string
  | Instruction string "nat option"
  | EndLine arg nat



text \<open>
  The loop over the instructions of one command: \<open>glc\<close> is \<open>global_line_count\<close>,
  \<open>lc\<close> is \<open>line_count\<close>.
\<close>

fun write_instructions :: "string list \<Rightarrow> nat \<Rightarrow> nat \<Rightarrow> out_line list \<times> nat \<times> nat" where
  "write_instructions [] glc lc = ([], glc, lc)"
| "write_instructions (instruction # is) glc lc =
     (if startswith instruction ''('' then
        (case write_instructions is glc lc of
           (out, r) \<Rightarrow> (Instruction instruction None # out, r))
      else
        (case write_instructions is (glc + 1) (lc + 1) of
           (out, r) \<Rightarrow> (Instruction instruction (Some glc) # out, r)))"

text \<open>The loop of \<open>Function.translate\<close> over \<open>self.commands\<close>.\<close>

fun translate_commands ::
  "ASMTranslator \<Rightarrow> Command list \<Rightarrow> nat \<Rightarrow> nat \<Rightarrow>
   error + (out_line list \<times> ASMTranslator \<times> nat \<times> nat)" where
  "translate_commands tr [] glc lc = Inr ([], tr, glc, lc)"
| "translate_commands tr (c # cs) glc lc =
     bind_err (visit tr c) (\<lambda>(instructions, tr').
     case write_instructions instructions glc lc of
       (out, glc', lc') \<Rightarrow>
         bind_err (translate_commands tr' cs glc' lc') (\<lambda>(out', r).
         Inr (CommandLine (symbolic c) # out @ out', r)))"

text \<open>
  \<open>Function.translate\<close>: sets \<open>filename\<close> and \<open>function_name\<close> of the translator and
  nothing else of its state, writes the block of the function and returns the new
  \<open>global_line_count\<close>.
\<close>

definition Function_translate ::
  "Function \<Rightarrow> ASMTranslator \<Rightarrow> nat \<Rightarrow> error + (out_line list \<times> ASMTranslator \<times> nat)" where
  "Function_translate f translator global_line_count =
     (let tr = translator\<lparr>tr_filename := AStr (filename f),
                          tr_function_name := function_name f\<rparr> in
      bind_err (translate_commands tr (commands f) global_line_count 0)
        (\<lambda>(out, tr', glc', line_count).
           Inr (BeginLine (function_name f) # out @ [EndLine (function_name f) line_count],
                tr', glc')))"

section \<open>The driver: \<open>translate\<close>\<close>

text \<open>
  Paths are POSIX paths. \<open>basename\<close> is what follows the last slash; \<open>splitext\<close> cuts
  at the last dot of a name unless only dots come before it; \<open>dirname\<close> is what comes
  before the last slash, without trailing slashes unless it consists of slashes;
  \<open>join\<close> puts a slash between its arguments unless the first is empty or ends in
  one, and returns the second when that is absolute.
\<close>

definition basename :: "string \<Rightarrow> string" where
  "basename p = rev (takeWhile (\<lambda>c. c \<noteq> CHR ''/'') (rev p))"

definition dirname :: "string \<Rightarrow> string" where
  "dirname p =
     (let head = rev (dropWhile (\<lambda>c. c \<noteq> CHR ''/'') (rev p)) in
      if head \<noteq> [] \<and> head \<noteq> replicate (length head) (CHR ''/'')
      then rev (dropWhile (\<lambda>c. c = CHR ''/'') (rev head)) else head)"

text \<open>\<open>os.path.splitext(name)[0]\<close> for a name without a slash.\<close>

definition splitext_root :: "string \<Rightarrow> string" where
  "splitext_root name =
     (let root = rev (drop 1 (dropWhile (\<lambda>c. c \<noteq> CHR ''.'') (rev name))) in
      if CHR ''.'' \<in> set name \<and> list_ex (\<lambda>c. c \<noteq> CHR ''.'') root then root else name)"

definition join_path :: "string \<Rightarrow> string \<Rightarrow> string" where
  "join_path a b =
     (if startswith b ''/'' then b
      else if a = [] \<or> last a = CHR ''/'' then a @ b
      else a @ ''/'' @ b)"

definition endswith :: "string \<Rightarrow> string \<Rightarrow> bool" where
  "endswith s l = startswith (rev s) (rev l)"

text \<open>
  The first loop of \<open>translate\<close>. A file is its path and its lines; \<open>None\<close> for the
  lines is a file that \<open>open\<close> cannot read. \<open>current_function\<close> is not reset between
  files.
\<close>

fun preassemble ::
  "Preassembler \<Rightarrow> (string \<times> string list option) list \<Rightarrow> error + Preassembler" where
  "preassemble p [] = Inr p"
| "preassemble p ((vm_file, content) # vm_files) =
     (case content of
        None \<Rightarrow> Inl OSError
      | Some fp \<Rightarrow>
          bind_err (add_file (p\<lparr>pre_filename := splitext_root (basename vm_file)\<rparr>) fp)
            (\<lambda>p'. preassemble p' vm_files))"

text \<open>
  The two optimizer traversals. Each iterates over the set that \<open>reachable_functions\<close>
  returned, computed once before the loop starts, in the interpreter's order \<open>ord\<close>.
  \<open>inline\<close> and \<open>optimize\<close> change the Function object that the table holds.
\<close>

fun inline_each :: "table \<Rightarrow> arg list \<Rightarrow> error + table" where
  "inline_each fs [] = Inr fs"
| "inline_each fs (n # ns) =
     bind_err (dict_get fs n) (\<lambda>fn.
     bind_err (inline fn fs) (\<lambda>fn'.
     inline_each (dict_set fs n fn') ns))"

fun optimize_each :: "table \<Rightarrow> arg list \<Rightarrow> error + table" where
  "optimize_each fs [] = Inr fs"
| "optimize_each fs (n # ns) =
     bind_err (dict_get fs n) (\<lambda>fn.
     bind_err (optimize fn) (\<lambda>fn'.
     optimize_each (dict_set fs n fn') ns))"

definition Sys_init :: arg where
  "Sys_init = AStr ''Sys.init''"

definition inline_pass :: "(arg list \<Rightarrow> arg list) \<Rightarrow> table \<Rightarrow> error + table" where
  "inline_pass ord fs =
     bind_err (reachable_functions ord fs Sys_init) (\<lambda>seen. inline_each fs (ord seen))"

definition optimize_pass :: "(arg list \<Rightarrow> arg list) \<Rightarrow> table \<Rightarrow> error + table" where
  "optimize_pass ord fs =
     bind_err (reachable_functions ord fs Sys_init) (\<lambda>seen. optimize_each fs (ord seen))"

text \<open>The last loop of \<open>translate\<close>: the blocks of the functions, one after the other.\<close>

fun emit_each ::
  "table \<Rightarrow> arg list \<Rightarrow> ASMTranslator \<Rightarrow> nat \<Rightarrow> error + out_line list" where
  "emit_each fs [] translator global_line_count = Inr []"
| "emit_each fs (n # ns) translator global_line_count =
     bind_err (dict_get fs n) (\<lambda>fn.
     bind_err (Function_translate fn translator global_line_count) (\<lambda>(out, tr', glc').
     bind_err (emit_each fs ns tr' glc') (\<lambda>out'.
     Inr (out @ out'))))"

definition emit_pass ::
  "(arg list \<Rightarrow> arg list) \<Rightarrow> table \<Rightarrow> ASMTranslator \<Rightarrow> nat \<Rightarrow> error + out_line list" where
  "emit_pass ord fs translator global_line_count =
     bind_err (reachable_functions ord fs Sys_init) (\<lambda>seen.
     emit_each fs (ord seen) translator global_line_count)"

text \<open>The preamble: the VM-init block when \<open>init_vm\<close> is true.\<close>

definition preamble :: "bool \<Rightarrow> out_line list \<times> ASMTranslator \<times> nat" where
  "preamble init_vm =
     (if init_vm then
        (case asm_init_vm ASMTranslator_init of
           (instructions, tr) \<Rightarrow>
             (case write_instructions instructions 0 0 of
                (out, glc, lc) \<Rightarrow> (out, tr, glc)))
      else ([], ASMTranslator_init, 0))"

text \<open>The table after the three stages that come before the output is written.\<close>

definition optimized_table ::
  "(arg list \<Rightarrow> arg list) \<Rightarrow> (string \<times> string list option) list \<Rightarrow> error + table" where
  "optimized_table ord vm_files =
     bind_err (preassemble Preassembler_init vm_files) (\<lambda>p.
     bind_err (inline_pass ord (functions p)) (\<lambda>fs.
     optimize_pass ord fs))"

definition translate ::
  "(arg list \<Rightarrow> arg list) \<Rightarrow> string \<Rightarrow> bool \<Rightarrow> (string \<times> string list option) list \<Rightarrow>
   error + out_line list" where
  "translate ord program init_vm vm_files =
     bind_err (optimized_table ord vm_files) (\<lambda>fs.
     case preamble init_vm of
       (init, translator, global_line_count) \<Rightarrow>
         bind_err (emit_pass ord fs translator global_line_count) (\<lambda>out.
         Inr (ProgramLine program # init @ out)))"

section \<open>The command line\<close>

text \<open>
  The \<open>__main__\<close> block on the normalised path \<open>path\<close>. The file system is what the
  block asks of it: \<open>isdir\<close>, \<open>listdir\<close> and the lines of a file. The result is the
  exit status of the process (1 when an exception ends it), the path of the output
  file and what \<open>translate\<close> returned.
\<close>

record FileSystem =
  isdir :: "string \<Rightarrow> bool"
  listdir :: "string \<Rightarrow> string list"
  read_lines :: "string \<Rightarrow> string list option"

definition main ::
  "(arg list \<Rightarrow> arg list) \<Rightarrow> FileSystem \<Rightarrow> string \<Rightarrow> nat \<times> string \<times> (error + out_line list)" where
  "main ord fs path =
     (case (if isdir fs path then
              ([join_path path file. file \<leftarrow> listdir fs path, endswith file ''.vm''],
               basename path, True, join_path path (basename path @ ''.asm''))
            else
              ([path], splitext_root (basename path), False,
               join_path (dirname path) (splitext_root (basename path) @ ''.asm''))) of
        (vm_files, program, init_vm, asm_file) \<Rightarrow>
          (let r = translate ord program init_vm (map (\<lambda>f. (f, read_lines fs f)) vm_files) in
           (case r of Inl e \<Rightarrow> 1 | Inr out \<Rightarrow> 0, asm_file, r)))"

section \<open>Notions used to state the properties\<close>

text \<open>
  The positions of a Command that hold an \<open>int\<close>, counted from 1 over the whole token
  list of the line: the opcode is position 1, \<open>args[i]\<close> is position \<open>i + 2\<close>.
\<close>

definition is_int :: "arg \<Rightarrow> bool" where
  "is_int a = (case a of AInt i \<Rightarrow> True | AStr s \<Rightarrow> False)"

definition int_positions :: "Command \<Rightarrow> nat list" where
  "int_positions c = [i + 2. i \<leftarrow> [0 ..< length (args c)], is_int (args c ! i)]"

text \<open>
  The invariant of C10 for one Function: its command list starts with a \<open>function\<close> or
  \<open>function-ext\<close> declaration whose first argument is the name of the Function.
  \<open>table_ok\<close> says so of every Function of a table.
\<close>

definition decl_first :: "Function \<Rightarrow> bool" where
  "decl_first f =
     (case commands f of
        [] \<Rightarrow> False
      | c # cs \<Rightarrow> is_function_decl c \<and> arg_at (args c) 0 = Inr (function_name f))"

definition table_ok :: "table \<Rightarrow> bool" where
  "table_ok fs = list_all (\<lambda>(k, f). decl_first f) fs"



text \<open>
  The dependency edges of a table: \<open>(a, b)\<close> when the Function stored under \<open>a\<close> has
  \<open>b\<close> among its dependencies. A function is transitively reachable from \<open>Sys.init\<close>
  when the pair is in the reflexive transitive closure of the edges. \<open>begins\<close> are the
  functions whose block an output holds (one \<open>// Begin:\<close> line each), in order.
  \<open>keys_ok\<close>: every Function of the table is stored under its own name.
\<close>

definition calls :: "table \<Rightarrow> (arg \<times> arg) set" where
  "calls fs = {(a, b). \<exists>g. map_of fs a = Some g \<and> b \<in> set (dep_names (dependencies g))}"

fun begins :: "out_line list \<Rightarrow> arg list" where
  "begins [] = []"
| "begins (BeginLine f # out) = f # begins out"
| "begins (l # out) = begins out"

definition keys_ok :: "table \<Rightarrow> bool" where
  "keys_ok fs = list_all (\<lambda>(k, f). function_name f = k) fs"



text \<open>
  The names that the \<open>call\<close> and \<open>call-ext\<close> commands of a command list call.
  \<open>deps_cover\<close>: the dependencies of every Function hold the names it calls.
  \<open>fewer_calls\<close> and \<open>fewer_deps\<close> compare a table with an earlier one: a Function
  of the later table calls, and depends on, only what the Function of that name
  depended on in the earlier table.
\<close>

definition call_targets :: "Command list \<Rightarrow> arg set" where
  "call_targets cs = {k. \<exists>c \<in> set cs. is_call c \<and> arg_at (args c) 0 = Inr k}"

definition deps_cover :: "table \<Rightarrow> bool" where
  "deps_cover fs =
     (\<forall>(k, f) \<in> set fs. call_targets (commands f) \<subseteq> set (dep_names (dependencies f)))"

definition fewer_calls :: "table \<Rightarrow> table \<Rightarrow> bool" where
  "fewer_calls fs0 fs =
     (\<forall>k g. map_of fs k = Some g \<longrightarrow>
        (\<exists>g0. map_of fs0 k = Some g0 \<and>
              call_targets (commands g) \<subseteq> set (dep_names (dependencies g0)) \<and>
              set (dep_names (dependencies g)) \<subseteq> set (dep_names (dependencies g0))))"

definition fewer_deps :: "table \<Rightarrow> table \<Rightarrow> bool" where
  "fewer_deps fs0 fs =
     (\<forall>k g. map_of fs k = Some g \<longrightarrow>
        (\<exists>g0. map_of fs0 k = Some g0 \<and>
              set (dep_names (dependencies g)) \<subseteq> set (dep_names (dependencies g0))))"

section \<open>Basic facts\<close>

lemma args_Cmd [simp]: "args (Cmd c as) = as"
  by (simp add: Cmd_def)

lemma command_Cmd [simp]: "command (Cmd c as) = c"
  by (simp add: Cmd_def)

lemma window_short:
  "length result \<noteq> n \<Longrightarrow> 0 < n \<Longrightarrow> window_loop m sub n result it = Inr result"
  by (simp add: window_loop.simps[of m sub n result it])

lemma rewrite_pair:
  assumes "length expr = 2"
  shows "rewrite expr [c1, c2] sub ex =
     (if match_code expr [c1, c2] ex then sub [c1, c2] else Inr [c1, c2])"
proof -
  have "window_loop m sub 2 [c1, c2] [] = (if m [c1, c2] then sub [c1, c2] else Inr [c1, c2])" for m
    by (subst window_loop.simps) (simp add: window_short split: sum.splits)
  then show ?thesis
    using assms by (simp add: rewrite_def window_replace_def)
qed

lemma py_int_cases: "py_int s = Inl (ValueError s) \<or> (\<exists>i. py_int s = Inr (AInt i))"
  by (auto simp: py_int_def split: option.splits list.splits)

lemma int_positions_Cmd:
  "int_positions (Cmd c as) = [i + 2. i \<leftarrow> [0 ..< length as], is_int (as ! i)]"
  by (simp add: int_positions_def)

section \<open>The peephole pass on \<open>lt; not; not\<close>\<close>

text \<open>
  C1. The pattern \<open>'gt'\<close> of the rewrite \<open>gt; not\<close> to \<open>lte\<close> is matched with
  \<open>re.match\<close>, so it also matches the opcode \<open>gte\<close>. On \<open>lt; not; not\<close> the rewrite
  before it turns \<open>lt; not\<close> into \<open>gte\<close>, and \<open>gte; not\<close> is then turned into
  \<open>lte\<close>: the function that computed \<open>x < y\<close> (negated twice) is optimized into one
  that computes \<open>x \<le> y\<close>. With both operands equal to 1 the source program leaves 0
  on the stack and the optimized one -1.
\<close>

theorem optimize_lt_not_not:
  "optimize_commands
     [Cmd ''function'' [AStr ''Sys.init'', AInt 0],
      Cmd ''push'' [AStr ''constant'', AInt 1],
      Cmd ''push'' [AStr ''constant'', AInt 1],
      Cmd ''lt'' [], Cmd ''not'' [], Cmd ''not'' [],
      Cmd ''return'' []]
   = Inr [Cmd ''function'' [AStr ''Sys.init'', AInt 0],
          Cmd ''push'' [AStr ''constant'', AInt 1],
          Cmd ''push'' [AStr ''constant'', AInt 1],
          Cmd ''lte'' [],
          Cmd ''return'' []]"
  by code_simp

section \<open>The rewrite \<open>pop; push\<close> to \<open>tee\<close>\<close>

text \<open>
  C4, as the claim states it, fails: on a window whose two argument lists differ the
  rewrite does not fire, and on a window whose argument lists are identical it does.
\<close>

theorem pop_push_differing_counterexample:
  "rw_pop_push [Cmd ''pop'' [AStr ''local'', AInt 0], Cmd ''push'' [AStr ''local'', AInt 1]]
     = Inr [Cmd ''pop'' [AStr ''local'', AInt 0], Cmd ''push'' [AStr ''local'', AInt 1]]
   \<and> rw_pop_push [Cmd ''pop'' [AStr ''local'', AInt 0], Cmd ''push'' [AStr ''local'', AInt 0]]
     = Inr [Cmd ''tee'' [AStr ''local'', AInt 0]]"
  by code_simp

text \<open>
  C4, amended. On a window of two commands the rewrite fires exactly when the first
  matches \<open>pop .*\<close>, the second matches \<open>push .*\<close> and the two argument lists are
  identical; it then leaves \<open>tee\<close> with these arguments, and otherwise leaves the
  window as it is.
\<close>

theorem pop_push_tee_iff_identical:
  "rw_pop_push [c1, c2] =
     Inr (if re_match [Lit ''pop '', DotStar] (symbolic c1) \<and>
             re_match [Lit ''push '', DotStar] (symbolic c2) \<and> args c1 = args c2
          then [Cmd ''tee'' (args c1)] else [c1, c2])"
  unfolding rw_pop_push_def
  by (subst rewrite_pair) (auto simp: match_code_def pop_push_exclude_def)

theorem pop_push_tee_iff_identical_witness:
  "rw_pop_push [Cmd ''pop'' [AStr ''that'', AInt 2], Cmd ''push'' [AStr ''that'', AInt 2]]
     = Inr [Cmd ''tee'' [AStr ''that'', AInt 2]]"
proof -
  have a: "re_match [Lit ''pop '', DotStar] (symbolic (Cmd ''pop'' [AStr ''that'', AInt 2])) = True"
    by code_simp
  have b: "re_match [Lit ''push '', DotStar] (symbolic (Cmd ''push'' [AStr ''that'', AInt 2])) = True"
    by code_simp
  show ?thesis
    by (simp only: pop_push_tee_iff_identical a b args_Cmd simp_thms if_True)
qed

section \<open>The typing of the parser's arguments\<close>

text \<open>
  C6, as the claim states it, fails: in \<open>push constant 5\<close> the token at position 2
  is kept as a string and the one parsed as an integer is at position 3.
\<close>

theorem parser_positions_counterexample:
  "parse_components (components_of ''push constant 5'')
     = Inr (Some (Cmd ''push'' [AStr ''constant'', AInt 5]))
   \<and> int_positions (Cmd ''push'' [AStr ''constant'', AInt 5]) = [3]"
  by code_simp

text \<open>
  C6, amended. When the parser returns a Command for a line of 1 to 5 tokens, the
  opcode is the first token, and the tokens parsed as integers are the third and the
  fifth, and for a line of exactly four tokens the third and the fourth; every other
  token is kept as a string.
\<close>

theorem parser_typed_positions:
  assumes "parse_components cs = Inr (Some c)"
  shows "1 \<le> length cs \<and> length cs \<le> 5 \<and> command c = cs ! 0 \<and>
         length (args c) = length cs - 1 \<and>
         int_positions c = (if length cs = 4 then [3, 4] else filter (\<lambda>p. p \<le> length cs) [3, 5]) \<and>
         (\<forall>i < length (args c).
            if i + 2 \<in> set (int_positions c) then py_int (cs ! Suc i) = Inr (args c ! i)
            else args c ! i = AStr (cs ! Suc i))"
proof -
  consider "length cs = 1" | "length cs = 2" | "length cs = 3" | "length cs = 4" | "length cs = 5"
    | "length cs \<noteq> 1 \<and> length cs \<noteq> 2 \<and> length cs \<noteq> 3 \<and> length cs \<noteq> 4 \<and> length cs \<noteq> 5"
    by blast
  then show ?thesis
  proof cases
    case 1
    with assms show ?thesis
      by (auto simp: parse_components_def int_positions_Cmd)
  next
    case 2
    with assms show ?thesis
      by (auto simp: parse_components_def int_positions_Cmd is_int_def upt_rec)
  next
    case 3
    with assms py_int_cases[of "cs ! 2"] show ?thesis
      by (auto simp: parse_components_def int_positions_Cmd is_int_def upt_rec bind_err_def
          less_Suc_eq numeral_3_eq_3 numeral_2_eq_2)
  next
    case 4
    with assms py_int_cases[of "cs ! 2"] py_int_cases[of "cs ! 3"] show ?thesis
      by (auto simp: parse_components_def int_positions_Cmd is_int_def upt_rec bind_err_def
          less_Suc_eq numeral_3_eq_3 numeral_2_eq_2)
  next
    case 5
    with assms py_int_cases[of "cs ! 2"] py_int_cases[of "cs ! 4"] show ?thesis
      by (auto simp: parse_components_def int_positions_Cmd is_int_def upt_rec bind_err_def
          less_Suc_eq numeral_3_eq_3 numeral_2_eq_2 eval_nat_numeral)
  next
    case 6
    with assms show ?thesis by (simp add: parse_components_def)
  qed
qed

theorem parser_typed_positions_witness:
  "parse_components [''function-ext'', ''Main.run'', ''2'', ''1'']
     = Inr (Some (Cmd ''function-ext'' [AStr ''Main.run'', AInt 2, AInt 1]))
   \<and> int_positions (Cmd ''function-ext'' [AStr ''Main.run'', AInt 2, AInt 1]) = [3, 4]"
proof -
  have h: "parse_components [''function-ext'', ''Main.run'', ''2'', ''1'']
             = Inr (Some (Cmd ''function-ext'' [AStr ''Main.run'', AInt 2, AInt 1]))"
    by code_simp
  from parser_typed_positions[OF h] h show ?thesis by simp
qed

section \<open>Malformed lines\<close>

text \<open>
  C7, as the claim states it, fails: a line of six tokens raises nothing. The parser
  passes over it and returns the command of the next line.
\<close>

theorem six_tokens_no_error_counterexample:
  "Parser_next [''a b c d e f'', ''add''] = Inr (Some (Cmd ''add'' [], []))"
  by code_simp

text \<open>
  C7, amended. A line that is not blank after its comment is removed and has more
  than five tokens is passed over without any error. A token that \<open>int()\<close> rejects in
  an integer position (the third token; the fourth of a four-token line; the fifth of
  a five-token line) ends the run with the ValueError of \<open>int()\<close>, which names the
  token and neither the file nor the line.
\<close>

theorem malformed_line_behaviour:
  assumes "strip (strip_comment line) \<noteq> []" and "cs = components_of line"
  shows "(5 < length cs \<longrightarrow> Parser_next (line # fp) = Parser_next fp) \<and>
         (3 \<le> length cs \<and> length cs \<le> 5 \<and> py_int (cs ! 2) = Inl e \<longrightarrow>
            Parser_next (line # fp) = Inl (ValueError (cs ! 2))) \<and>
         (length cs = 4 \<and> py_int (cs ! 2) = Inr a \<and> py_int (cs ! 3) = Inl e \<longrightarrow>
            Parser_next (line # fp) = Inl (ValueError (cs ! 3))) \<and>
         (length cs = 5 \<and> py_int (cs ! 2) = Inr a \<and> py_int (cs ! 4) = Inl e \<longrightarrow>
            Parser_next (line # fp) = Inl (ValueError (cs ! 4)))"
  using assms py_int_cases[of "cs ! 2"] py_int_cases[of "cs ! 3"] py_int_cases[of "cs ! 4"]
  by (auto simp: parse_components_def bind_err_def)

theorem malformed_line_behaviour_witness:
  "Parser_next [''a b c d e f'', ''add''] = Parser_next [''add''] \<and>
   Parser_next [''push constant x5'', ''add''] = Inl (ValueError ''x5'')"
proof -
  have n1: "strip (strip_comment ''a b c d e f'') \<noteq> []" by code_simp
  have c1: "components_of ''a b c d e f'' = [''a'', ''b'', ''c'', ''d'', ''e'', ''f'']" by code_simp
  have n2: "strip (strip_comment ''push constant x5'') \<noteq> []" by code_simp
  have c2: "components_of ''push constant x5'' = [''push'', ''constant'', ''x5'']" by code_simp
  have e2: "py_int ''x5'' = Inl (ValueError ''x5'')" by code_simp
  from malformed_line_behaviour[OF n1 c1[symmetric], where fp = "[''add'']"]
  have "Parser_next [''a b c d e f'', ''add''] = Parser_next [''add'']" by simp
  moreover from malformed_line_behaviour[OF n2 c2[symmetric], where fp = "[''add'']" and e = "ValueError ''x5''"] e2
  have "Parser_next [''push constant x5'', ''add''] = Inl (ValueError ''x5'')" by simp
  ultimately show ?thesis by simp
qed

section \<open>Inlining a member accessor\<close>

lemma join_space_Cons: "\<exists>r. join_space (x # xs) = x @ r"
  by (cases xs) auto

lemma symbolic_command: "\<exists>r. symbolic c = command c @ r"
  by (simp add: symbolic_def join_space_Cons)

lemma re_match_Lit [simp]: "re_match [Lit l] s = startswith s l"
  by simp

lemma re_match_Lit_DotStar [simp]: "re_match [Lit l, DotStar] s = startswith s l"
  by (auto simp: list_ex_iff)

lemma startswith_append: "startswith (l @ r) l"
  by (simp add: startswith_def)

lemma startswith_function: "is_function_decl d \<Longrightarrow> startswith (symbolic d) ''function''"
proof -
  assume a: "is_function_decl d"
  obtain r where r: "symbolic d = command d @ r" using symbolic_command by blast
  from a show ?thesis unfolding is_function_decl_def r
    by (auto simp: startswith_def)
qed

lemma member_shape:
  assumes "commands g = [d, Cmd ''push'' [AStr ''argument'', AInt 0],
                            Cmd ''pop'' [AStr ''pointer'', AInt 0],
                            Cmd ''push'' [AStr ''this'', i], Cmd ''return'' []]"
    and "is_function_decl d"
  shows "try_inline g = Inr (Some [Cmd ''pop'' [AStr ''pointer'', AInt 1], Cmd ''push'' [AStr ''that'', i]])"
proof -
  have s1: "symbolic (Cmd ''push'' [AStr ''argument'', AInt 0]) = ''push argument 0''" by code_simp
  have s2: "symbolic (Cmd ''pop'' [AStr ''pointer'', AInt 0]) = ''pop pointer 0''" by code_simp
  have s3: "symbolic (Cmd ''return'' []) = ''return''" by code_simp
  have s4: "startswith (symbolic (Cmd ''push'' [AStr ''this'', i])) ''push this ''"
    by (simp add: symbolic_def startswith_def)
  have m: "is_member_accessor g"
    using assms startswith_function[OF assms(2)] s4
    by (simp add: is_member_accessor_def match_code_def s1 s2 s3 startswith_def)
  have nc: "\<not> is_constant_accessor g" "\<not> is_static_accessor g"
    using assms by (simp_all add: is_constant_accessor_def is_static_accessor_def match_code_def)
  show ?thesis using m nc assms(1)
    by (simp add: try_inline_def arg_at_def bind_err_def)
qed


lemma inline_loop_append:
  "inline_loop fn fs (xs @ ys) =
     bind_err (inline_loop fn fs xs) (\<lambda>(a, b).
     bind_err (inline_loop fn fs ys) (\<lambda>(a', b'). Inr (a @ a', b @ b')))"
proof (induction xs)
  case Nil
  show ?case by (simp add: bind_err_def split: sum.splits)
next
  case (Cons x xs)
  show ?case
    by (simp add: Cons bind_err_def split: sum.splits option.splits prod.splits)
qed

lemma inline_loop_no_dep:
  assumes "map_of fs name = Some g" and "try_inline g = Inr (Some ics)"
  shows "inline_loop fn fs cs = Inr (cs', ds) \<Longrightarrow> name \<notin> set ds"
proof (induction cs arbitrary: cs' ds)
  case Nil
  then show ?case by simp
next
  case (Cons c cs)
  show ?case
  proof (cases "is_call c")
    case False
    with Cons.prems obtain a b where "inline_loop fn fs cs = Inr (a, b)" "ds = b"
      by (auto simp: bind_err_def split: sum.splits)
    with Cons.IH show ?thesis by blast
  next
    case True
    with Cons.prems obtain cn f ic a b where
      cn: "arg_at (args c) 0 = Inr cn" and f: "dict_get fs cn = Inr f"
      and ic: "try_inline f = Inr ic" and rest: "inline_loop fn fs cs = Inr (a, b)"
      by (auto simp: bind_err_def split: sum.splits)
    from Cons.IH[OF rest] have nb: "name \<notin> set b" .
    show ?thesis
    proof (cases ic)
      case None
      with True Cons.prems cn f ic rest have ds: "ds = cn # b"
        by (simp add: bind_err_def)
      have "cn \<noteq> name"
      proof
        assume "cn = name"
        with f assms(1) have "f = g" by (simp add: dict_get_def)
        with ic None assms(2) show False by simp
      qed
      with nb ds show ?thesis by simp
    next
      case (Some x)
      with True Cons.prems cn f ic rest have "ds = b"
        by (simp add: bind_err_def)
      with nb show ?thesis by simp
    qed
  qed
qed

text \<open>
  C8. Let the callee \<open>g\<close>, found in the table under \<open>name\<close>, consist of a function
  declaration, \<open>push argument 0\<close>, \<open>pop pointer 0\<close>, \<open>push this i\<close> and \<open>return\<close>.
  Then at every call site \<open>c\<close> of \<open>name\<close> in the body \<open>pre @ c # post\<close> of a caller
  \<open>fn\<close>, \<open>Optimizer.inline\<close> puts \<open>inline-call\<close> with the callee's file and name,
  \<open>pop pointer 1\<close>, \<open>push that i\<close> and \<open>inline-return\<close> with the caller's file and
  name in the place of \<open>c\<close>; the site adds nothing to the dependency list, and
  \<open>name\<close> is not in the new dependency list at all.
\<close>

theorem member_accessor_inlined:
  assumes callee: "map_of fs name = Some g"
    and shape: "commands g = [d, Cmd ''push'' [AStr ''argument'', AInt 0],
                                 Cmd ''pop'' [AStr ''pointer'', AInt 0],
                                 Cmd ''push'' [AStr ''this'', i], Cmd ''return'' []]"
    and decl: "is_function_decl d"
    and site: "is_call c \<and> arg_at (args c) 0 = Inr name"
    and body: "commands fn = pre @ c # post"
    and before: "inline_loop fn fs pre = Inr (pre', dpre)"
    and after: "inline_loop fn fs post = Inr (post', dpost)"
  shows "inline fn fs =
           Inr (fn\<lparr>commands :=
                      pre' @ [Cmd ''inline-call'' [AStr (filename g), function_name g],
                              Cmd ''pop'' [AStr ''pointer'', AInt 1],
                              Cmd ''push'' [AStr ''that'', i],
                              Cmd ''inline-return'' [AStr (filename fn), function_name fn]] @ post',
                    dependencies := DepList (dpre @ dpost)\<rparr>)
         \<and> name \<notin> set (dpre @ dpost)"
proof -
  note ti = member_shape[OF shape decl]
  have g: "dict_get fs name = Inr g" using callee by (simp add: dict_get_def)
  have one: "inline_loop fn fs (c # post) =
      Inr (Cmd ''inline-call'' [AStr (filename g), function_name g]
           # [Cmd ''pop'' [AStr ''pointer'', AInt 1], Cmd ''push'' [AStr ''that'', i]]
           @ [Cmd ''inline-return'' [AStr (filename fn), function_name fn]] @ post', dpost)"
    using site g ti after by (simp add: bind_err_def)
  have "inline_loop fn fs (pre @ c # post) =
      Inr (pre' @ [Cmd ''inline-call'' [AStr (filename g), function_name g],
                   Cmd ''pop'' [AStr ''pointer'', AInt 1], Cmd ''push'' [AStr ''that'', i],
                   Cmd ''inline-return'' [AStr (filename fn), function_name fn]] @ post',
           dpre @ dpost)"
    by (simp only: inline_loop_append before one) (simp add: bind_err_def)
  then have a: "inline fn fs = Inr (fn\<lparr>commands :=
                      pre' @ [Cmd ''inline-call'' [AStr (filename g), function_name g],
                              Cmd ''pop'' [AStr ''pointer'', AInt 1],
                              Cmd ''push'' [AStr ''that'', i],
                              Cmd ''inline-return'' [AStr (filename fn), function_name fn]] @ post',
                    dependencies := DepList (dpre @ dpost)\<rparr>)"
    by (simp add: inline_def body bind_err_def)
  from inline_loop_no_dep[OF callee ti before] inline_loop_no_dep[OF callee ti after]
  have "name \<notin> set (dpre @ dpost)" by simp
  with a show ?thesis by simp
qed


theorem member_accessor_inlined_witness:
  "inline
     \<lparr>filename = ''Main'', function_name = AStr ''Main.run'',
      commands = [Cmd ''function'' [AStr ''Main.run'', AInt 0],
                  Cmd ''push'' [AStr ''local'', AInt 0],
                  Cmd ''call'' [AStr ''Point.getx'', AInt 1],
                  Cmd ''return'' []],
      dependencies = DepSet [AStr ''Point.getx'']\<rparr>
     [(AStr ''Point.getx'',
       \<lparr>filename = ''Point'', function_name = AStr ''Point.getx'',
        commands = [Cmd ''function'' [AStr ''Point.getx'', AInt 0],
                    Cmd ''push'' [AStr ''argument'', AInt 0],
                    Cmd ''pop'' [AStr ''pointer'', AInt 0],
                    Cmd ''push'' [AStr ''this'', AInt 0],
                    Cmd ''return'' []],
        dependencies = DepSet []\<rparr>)]
   = Inr \<lparr>filename = ''Main'', function_name = AStr ''Main.run'',
          commands = [Cmd ''function'' [AStr ''Main.run'', AInt 0],
                      Cmd ''push'' [AStr ''local'', AInt 0],
                      Cmd ''inline-call'' [AStr ''Point'', AStr ''Point.getx''],
                      Cmd ''pop'' [AStr ''pointer'', AInt 1],
                      Cmd ''push'' [AStr ''that'', AInt 0],
                      Cmd ''inline-return'' [AStr ''Main'', AStr ''Main.run''],
                      Cmd ''return'' []],
          dependencies = DepList []\<rparr>"
proof -
  let ?g = "\<lparr>filename = ''Point'', function_name = AStr ''Point.getx'',
        commands = [Cmd ''function'' [AStr ''Point.getx'', AInt 0],
                    Cmd ''push'' [AStr ''argument'', AInt 0],
                    Cmd ''pop'' [AStr ''pointer'', AInt 0],
                    Cmd ''push'' [AStr ''this'', AInt 0],
                    Cmd ''return'' []],
        dependencies = DepSet []\<rparr>"
  let ?fn = "\<lparr>filename = ''Main'', function_name = AStr ''Main.run'',
      commands = [Cmd ''function'' [AStr ''Main.run'', AInt 0],
                  Cmd ''push'' [AStr ''local'', AInt 0],
                  Cmd ''call'' [AStr ''Point.getx'', AInt 1],
                  Cmd ''return'' []],
      dependencies = DepSet [AStr ''Point.getx'']\<rparr>"
  let ?fs = "[(AStr ''Point.getx'', ?g)]"
  have callee: "map_of ?fs (AStr ''Point.getx'') = Some ?g" by simp
  have shape: "commands ?g = [Cmd ''function'' [AStr ''Point.getx'', AInt 0],
                    Cmd ''push'' [AStr ''argument'', AInt 0],
                    Cmd ''pop'' [AStr ''pointer'', AInt 0],
                    Cmd ''push'' [AStr ''this'', AInt 0],
                    Cmd ''return'' []]" by simp
  have decl: "is_function_decl (Cmd ''function'' [AStr ''Point.getx'', AInt 0])"
    by (simp add: is_function_decl_def)
  have site: "is_call (Cmd ''call'' [AStr ''Point.getx'', AInt 1]) \<and>
              arg_at (args (Cmd ''call'' [AStr ''Point.getx'', AInt 1])) 0 = Inr (AStr ''Point.getx'')"
    by (simp add: is_call_def arg_at_def)
  have body: "commands ?fn = [Cmd ''function'' [AStr ''Main.run'', AInt 0],
                  Cmd ''push'' [AStr ''local'', AInt 0]]
                @ Cmd ''call'' [AStr ''Point.getx'', AInt 1] # [Cmd ''return'' []]" by simp
  have before: "inline_loop ?fn ?fs [Cmd ''function'' [AStr ''Main.run'', AInt 0],
                  Cmd ''push'' [AStr ''local'', AInt 0]]
                = Inr ([Cmd ''function'' [AStr ''Main.run'', AInt 0],
                  Cmd ''push'' [AStr ''local'', AInt 0]], [])"
    by (simp add: is_call_def bind_err_def)
  have after: "inline_loop ?fn ?fs [Cmd ''return'' []] = Inr ([Cmd ''return'' []], [])"
    by (simp add: is_call_def bind_err_def)
  from member_accessor_inlined[OF callee shape decl site body before after]
  show ?thesis by simp
qed

section \<open>The declaration stays first\<close>

lemma set_dict_set: "set (dict_set d k v) \<subseteq> insert (k, v) (set d)"
  by (induction d) (auto split: if_splits)

lemma dict_get_mem: "dict_get d k = Inr f \<Longrightarrow> (k, f) \<in> set d"
  by (auto simp: dict_get_def split: option.splits dest: map_of_SomeD)

lemma table_ok_iff: "table_ok fs \<longleftrightarrow> (\<forall>(k, f) \<in> set fs. decl_first f)"
  by (simp add: table_ok_def list_all_iff)

lemma table_ok_dict_set: "table_ok fs \<Longrightarrow> decl_first f \<Longrightarrow> table_ok (dict_set fs k f)"
  using set_dict_set[of fs k f] by (auto simp: table_ok_iff)

lemma table_ok_dict_get: "table_ok fs \<Longrightarrow> dict_get fs k = Inr f \<Longrightarrow> decl_first f"
  by (auto simp: table_ok_iff dest: dict_get_mem)

lemma Function_append_fields:
  "Function_append f c = Inr f' \<Longrightarrow>
     commands f' = commands f @ [c] \<and> function_name f' = function_name f \<and> filename f' = filename f"
  by (auto simp: Function_append_def bind_err_def Let_def split: if_splits sum.splits)

lemma Function_append_decl_first:
  assumes "Function_append f c = Inr f'" and "decl_first f"
  shows "decl_first f'"
  using Function_append_fields[OF assms(1)] assms(2)
  by (auto simp: decl_first_def split: list.splits)

lemma Function_append_fresh:
  assumes "Function_append f c = Inr f'" and "commands f = []"
    and "is_function_decl c" and "arg_at (args c) 0 = Inr (function_name f)"
  shows "decl_first f'"
  using Function_append_fields[OF assms(1)] assms(2-)
  by (auto simp: decl_first_def split: list.splits)

lemma map_of_dict_set: "map_of (dict_set d k v) = (map_of d)(k \<mapsto> v)"
  by (induction d) (auto simp: fun_eq_iff)



lemma dict_get_dict_set: "dict_get (dict_set d k v) k = Inr v"
  by (simp add: dict_get_def map_of_dict_set)

lemma dict_set_twice: "dict_set (dict_set d k v) k v' = dict_set d k v'"
  by (induction d) auto

lemma bind_err_Inr: "bind_err m f = Inr y \<Longrightarrow> \<exists>x. m = Inr x \<and> f x = Inr y"
  by (cases m) (simp_all add: bind_err_def)

lemma append_current:
  fixes p p' :: Preassembler
  assumes "(case current_function p of
              None \<Rightarrow> Inl (AttributeError ''append'')
            | Some cur \<Rightarrow>
                bind_err (dict_get (functions p) cur) (\<lambda>f.
                bind_err (Function_append f c) (\<lambda>f'.
                Inr (p\<lparr>functions := dict_set (functions p) cur f'\<rparr>)))) = Inr p'"
  shows "\<exists>cur f f'. current_function p = Some cur \<and> dict_get (functions p) cur = Inr f \<and>
           Function_append f c = Inr f' \<and> functions p' = dict_set (functions p) cur f'"
proof (cases "current_function p")
  case None
  with assms show ?thesis by simp
next
  case (Some cur)
  with assms have "bind_err (dict_get (functions p) cur) (\<lambda>f.
                bind_err (Function_append f c) (\<lambda>f'.
                Inr (p\<lparr>functions := dict_set (functions p) cur f'\<rparr>))) = Inr p'" by simp
  from bind_err_Inr[OF this] obtain f where f: "dict_get (functions p) cur = Inr f"
    and r: "bind_err (Function_append f c) (\<lambda>f'.
                Inr (p\<lparr>functions := dict_set (functions p) cur f'\<rparr>)) = Inr p'" by blast
  from bind_err_Inr[OF r] obtain f' where "Function_append f c = Inr f'"
    and "p\<lparr>functions := dict_set (functions p) cur f'\<rparr> = p'" by blast
  with Some f show ?thesis by auto
qed

lemma Preassembler_add_result:
  fixes p p' :: Preassembler
  assumes "Preassembler_add p c = Inr p'"
  shows "\<exists>k f0 f. functions p' = dict_set (functions p) k f \<and> Function_append f0 c = Inr f \<and>
           (if is_function_decl c
            then arg_at (args c) 0 = Inr k \<and>
                 f0 = \<lparr>filename = pre_filename p, function_name = k,
                        commands = [], dependencies = DepSet []\<rparr>
            else dict_get (functions p) k = Inr f0)"
proof (cases "is_function_decl c")
  case True
  from assms True have
    "bind_err (bind_err (arg_at (args c) 0) (\<lambda>name.
          Inr (p\<lparr>functions := dict_set (functions p) name
                    \<lparr>filename = pre_filename p, function_name = name,
                     commands = [], dependencies = DepSet []\<rparr>,
                 current_function := Some name\<rparr>)))
       (\<lambda>p.
          case current_function p of
            None \<Rightarrow> Inl (AttributeError ''append'')
          | Some cur \<Rightarrow>
              bind_err (dict_get (functions p) cur) (\<lambda>f.
              bind_err (Function_append f c) (\<lambda>f'.
              Inr (p\<lparr>functions := dict_set (functions p) cur f'\<rparr>)))) = Inr p'"
    by (simp add: Preassembler_add_def)
  from bind_err_Inr[OF this] obtain p1 where
    p1: "bind_err (arg_at (args c) 0) (\<lambda>name.
          Inr (p\<lparr>functions := dict_set (functions p) name
                    \<lparr>filename = pre_filename p, function_name = name,
                     commands = [], dependencies = DepSet []\<rparr>,
                 current_function := Some name\<rparr>)) = Inr p1"
    and r: "(case current_function p1 of
            None \<Rightarrow> Inl (AttributeError ''append'')
          | Some cur \<Rightarrow>
              bind_err (dict_get (functions p1) cur) (\<lambda>f.
              bind_err (Function_append f c) (\<lambda>f'.
              Inr (p1\<lparr>functions := dict_set (functions p1) cur f'\<rparr>)))) = Inr p'"
    by blast
  from bind_err_Inr[OF p1] obtain name where name: "arg_at (args c) 0 = Inr name"
    and p1eq: "p1 = p\<lparr>functions := dict_set (functions p) name
                    \<lparr>filename = pre_filename p, function_name = name,
                     commands = [], dependencies = DepSet []\<rparr>,
                 current_function := Some name\<rparr>" by auto
  from append_current[OF r] obtain cur f f' where
    cur: "current_function p1 = Some cur" and f: "dict_get (functions p1) cur = Inr f"
    and app: "Function_append f c = Inr f'" and p': "functions p' = dict_set (functions p1) cur f'"
    by blast
  from cur p1eq have curname: "cur = name" by simp
  from f p1eq curname have feq: "f = \<lparr>filename = pre_filename p, function_name = name,
                     commands = [], dependencies = DepSet []\<rparr>"
    by (simp add: dict_get_dict_set)
  from p' p1eq curname have "functions p' = dict_set (functions p) name f'"
    by (simp add: dict_set_twice)
  with True name feq app show ?thesis by auto
next
  case False
  from assms False have
    "(case current_function p of
            None \<Rightarrow> Inl (AttributeError ''append'')
          | Some cur \<Rightarrow>
              bind_err (dict_get (functions p) cur) (\<lambda>f.
              bind_err (Function_append f c) (\<lambda>f'.
              Inr (p\<lparr>functions := dict_set (functions p) cur f'\<rparr>)))) = Inr p'"
    by (simp add: Preassembler_add_def bind_err_def)
  from append_current[OF this] False show ?thesis by auto
qed

lemma add_file_preserves:
  assumes step: "\<And>p c p'. Preassembler_add p c = Inr p' \<Longrightarrow> Q (functions p) \<Longrightarrow> Q (functions p')"
  shows "add_file p fp = Inr p' \<Longrightarrow> Q (functions p) \<Longrightarrow> Q (functions p')"
proof (induction p fp rule: add_file.induct)
  case (1 p fp)
  show ?case
  proof (cases "Parser_next fp")
    case (Inl e)
    with "1.prems" show ?thesis by (simp add: add_file.simps[of p fp])
  next
    case (Inr r)
    show ?thesis
    proof (cases r)
      case None
      with Inr "1.prems" show ?thesis by (simp add: add_file.simps[of p fp])
    next
      case (Some a)
      obtain c fp' where a: "a = (c, fp')" by (cases a)
      show ?thesis
      proof (cases "Preassembler_add p c")
        case (Inl e)
        with "1.prems"(1) Inr Some a show ?thesis by (simp add: add_file.simps[of p fp])
      next
        case p1: (Inr p1)
        with "1.prems"(1) Inr Some a have rest: "add_file p1 fp' = Inr p'"
          by (simp add: add_file.simps[of p fp])
        from step[OF p1 "1.prems"(2)] have ok: "Q (functions p1)" .
        from Some a have Some': "r = Some (c, fp')" by simp
        show ?thesis by (rule "1.IH"[OF Inr Some' refl p1 rest ok])
      qed
    qed
  qed
qed

lemma preassemble_preserves:
  assumes step: "\<And>p c p'. Preassembler_add p c = Inr p' \<Longrightarrow> Q (functions p) \<Longrightarrow> Q (functions p')"
  shows "preassemble p vm_files = Inr p' \<Longrightarrow> Q (functions p) \<Longrightarrow> Q (functions p')"
proof (induction vm_files arbitrary: p)
  case Nil
  then show ?case by simp
next
  case (Cons a vm_files)
  obtain path content where a: "a = (path, content)" by (cases a)
  show ?case
  proof (cases content)
    case None
    with Cons.prems(1) a show ?thesis by simp
  next
    case (Some fp)
    with Cons.prems(1) a have
      "bind_err (add_file (p\<lparr>pre_filename := splitext_root (basename path)\<rparr>) fp)
            (\<lambda>p'. preassemble p' vm_files) = Inr p'" by simp
    from bind_err_Inr[OF this] obtain p1 where
      p1: "add_file (p\<lparr>pre_filename := splitext_root (basename path)\<rparr>) fp = Inr p1"
      and rest: "preassemble p1 vm_files = Inr p'" by blast
    from add_file_preserves[of Q, OF step p1] Cons.prems(2) have "Q (functions p1)" by simp
    from Cons.IH[OF rest this] show ?thesis .
  qed
qed

lemma Preassembler_add_table_ok:
  fixes p p' :: Preassembler
  assumes "Preassembler_add p c = Inr p'" and "table_ok (functions p)"
  shows "table_ok (functions p')"
proof -
  from Preassembler_add_result[OF assms(1)] obtain k f0 f where
    p': "functions p' = dict_set (functions p) k f" and app: "Function_append f0 c = Inr f"
    and c: "if is_function_decl c
            then arg_at (args c) 0 = Inr k \<and>
                 f0 = \<lparr>filename = pre_filename p, function_name = k,
                        commands = [], dependencies = DepSet []\<rparr>
            else dict_get (functions p) k = Inr f0" by blast
  have "decl_first f"
  proof (cases "is_function_decl c")
    case True
    with c Function_append_fresh[OF app] show ?thesis by simp
  next
    case False
    with c table_ok_dict_get[OF assms(2)] have "decl_first f0" by simp
    from Function_append_decl_first[OF app this] show ?thesis .
  qed
  with p' assms(2) show ?thesis by (simp add: table_ok_dict_set)
qed

lemma decl_not_call: "is_function_decl c \<Longrightarrow> \<not> is_call c"
  by (auto simp: is_function_decl_def is_call_def)

lemma inline_loop_head:
  assumes "inline_loop fn fs (c # cs) = Inr (cs', ds)" and "\<not> is_call c"
  shows "\<exists>r. cs' = c # r"
proof -
  from assms have "bind_err (inline_loop fn fs cs) (\<lambda>(commands', dependencies').
        Inr (c # commands', dependencies')) = Inr (cs', ds)" by simp
  from bind_err_Inr[OF this] show ?thesis by auto
qed

lemma inline_decl_first:
  assumes "inline fn fs = Inr fn'" and "decl_first fn"
  shows "decl_first fn'"
proof -
  from assms(1) have "bind_err (inline_loop fn fs (commands fn)) (\<lambda>(commands', dependencies').
     Inr (fn\<lparr>commands := commands', dependencies := DepList dependencies'\<rparr>)) = Inr fn'"
    by (simp add: inline_def)
  from bind_err_Inr[OF this] obtain cs' ds where
    l: "inline_loop fn fs (commands fn) = Inr (cs', ds)"
    and fn': "fn' = fn\<lparr>commands := cs', dependencies := DepList ds\<rparr>" by auto
  from assms(2) obtain c cs where c: "commands fn = c # cs" "is_function_decl c"
    "arg_at (args c) 0 = Inr (function_name fn)"
    by (auto simp: decl_first_def split: list.splits)
  from inline_loop_head[OF l[unfolded c(1)] decl_not_call[OF c(2)]] obtain r where "cs' = c # r" ..
  with fn' c show ?thesis by (simp add: decl_first_def)
qed

lemma inline_each_table_ok:
  "inline_each fs ns = Inr fs' \<Longrightarrow> table_ok fs \<Longrightarrow> table_ok fs'"
proof (induction ns arbitrary: fs)
  case Nil
  then show ?case by simp
next
  case (Cons n ns)
  from Cons.prems(1) have "bind_err (dict_get fs n) (\<lambda>fn.
     bind_err (inline fn fs) (\<lambda>fn'.
     inline_each (dict_set fs n fn') ns)) = Inr fs'" by simp
  from bind_err_Inr[OF this] obtain fn where fn: "dict_get fs n = Inr fn"
    and r: "bind_err (inline fn fs) (\<lambda>fn'. inline_each (dict_set fs n fn') ns) = Inr fs'" by blast
  from bind_err_Inr[OF r] obtain fn' where fn': "inline fn fs = Inr fn'"
    and rest: "inline_each (dict_set fs n fn') ns = Inr fs'" by blast
  from inline_decl_first[OF fn' table_ok_dict_get[OF Cons.prems(2) fn]] have "decl_first fn'" .
  from Cons.IH[OF rest table_ok_dict_set[OF Cons.prems(2) this]] show ?case .
qed


lemma window_slide:
  assumes "length result = n" and "0 < n" and "\<not> m result"
  shows "window_loop m sub n result it =
           (case window_loop m sub n (tl result @ take 1 it) (drop 1 it) of
              Inl e \<Rightarrow> Inl e
            | Inr rest \<Rightarrow> Inr (hd result # rest))"
  using assms by (subst window_loop.simps) simp

lemma window_replace_head:
  assumes "0 < n" and "\<And>w. w \<noteq> [] \<Longrightarrow> hd w = c \<Longrightarrow> \<not> m w"
    and "window_replace (c # cs) m sub n = Inr r"
  shows "\<exists>r'. r = c # r'"
proof -
  define res where "res = take n (c # cs)"
  have ne: "res \<noteq> []" and hd: "hd res = c"
    using assms(1) by (cases n; simp add: res_def)+
  have nm: "\<not> m res" using assms(2)[OF ne hd] .
  from assms(3) have w: "window_loop m sub n res (drop n (c # cs)) = Inr r"
    by (simp add: window_replace_def res_def)
  show ?thesis
  proof (cases "length res = n")
    case True
    have "window_loop m sub n res (drop n (c # cs)) =
           (case window_loop m sub n (tl res @ take 1 (drop n (c # cs))) (drop 1 (drop n (c # cs))) of
              Inl e \<Rightarrow> Inl e
            | Inr rest \<Rightarrow> Inr (hd res # rest))"
      using True assms(1) nm by (rule window_slide)
    with w hd show ?thesis
      by (auto split: sum.splits)
  next
    case False
    from w[unfolded window_short[OF False assms(1)]] ne hd show ?thesis
      by (cases res) auto
  qed
qed

lemma match_code_head:
  assumes "\<not> re_match p (symbolic c)" and "w \<noteq> []" and "hd w = c"
  shows "\<not> match_code (p # ps) w ex"
proof -
  from assms(2,3) obtain ws where "w = c # ws" by (cases w) auto
  with assms(1) show ?thesis by (simp add: match_code_def)
qed

lemma rewrite_head:
  assumes "\<not> re_match p (symbolic c)" and "rewrite (p # ps) (c # cs) sub ex = Inr r"
  shows "\<exists>r'. r = c # r'"
proof (rule window_replace_head)
  show "0 < length (p # ps)" by simp
  show "window_replace (c # cs) (\<lambda>w. match_code (p # ps) w ex) sub (length (p # ps)) = Inr r"
    using assms(2) by (simp add: rewrite_def)
  show "\<not> match_code (p # ps) w ex" if "w \<noteq> []" "hd w = c" for w
    using match_code_head[OF assms(1) that] .
qed

lemma not_startswith_other:
  "startswith s ''function'' \<Longrightarrow> x \<noteq> CHR ''f'' \<Longrightarrow> \<not> startswith s (x # l)"
  by (cases s) (auto simp: startswith_def)

lemma optimize_commands_head:
  assumes d: "is_function_decl c" and o: "optimize_commands (c # cs) = Inr r"
  shows "\<exists>r'. r = c # r'"
proof -
  note sf = startswith_function[OF d]
  have n1: "\<not> re_match [Lit ''push constant '', DotStar] (symbolic c)"
    unfolding re_match_Lit_DotStar by (rule not_startswith_other[OF sf]) simp
  have n2: "\<not> re_match [Lit ''push constant 0''] (symbolic c)"
    using not_startswith_other[OF sf, of "CHR ''p''"] by simp
  have n3: "\<not> re_match [Lit ''lt''] (symbolic c)"
    using not_startswith_other[OF sf, of "CHR ''l''"] by simp
  have n4: "\<not> re_match [Lit ''gt''] (symbolic c)"
    using not_startswith_other[OF sf, of "CHR ''g''"] by simp
  have n5: "\<not> re_match [Lit ''push '', DotStar] (symbolic c)"
    unfolding re_match_Lit_DotStar by (rule not_startswith_other[OF sf]) simp
  have n6: "\<not> re_match [Lit ''pop '', DotStar] (symbolic c)"
    unfolding re_match_Lit_DotStar by (rule not_startswith_other[OF sf]) simp
  have n7: "\<not> re_match [Lit ''if-goto '', DotStar] (symbolic c)"
    unfolding re_match_Lit_DotStar by (rule not_startswith_other[OF sf]) simp
  from bind_err_Inr[OF o[unfolded optimize_commands_def]] obtain r1 where
    a1: "rw_push_constant_not (c # cs) = Inr r1" and
    o1: "bind_err (rw_push_constant_neg r1) (\<lambda>commands.
     bind_err (rw_push_constant_0_add commands) (\<lambda>commands.
     bind_err (rw_push_constant_0_not commands) (\<lambda>commands.
     bind_err (rw_lt_not commands) (\<lambda>commands.
     bind_err (rw_gt_not commands) (\<lambda>commands.
     bind_err (rw_cmp_if_goto commands) (\<lambda>commands.
     bind_err (rw_push_pop commands) (\<lambda>commands.
     bind_err (rw_push_inline_pop commands) (\<lambda>commands.
     bind_err (rw_pop_push commands) (\<lambda>commands.
     rw_if_goto_goto_label commands))))))))) = Inr r" by blast
  from rewrite_head[OF n1 a1[unfolded rw_push_constant_not_def]] obtain t1 where t1: "r1 = c # t1" ..
  from bind_err_Inr[OF o1] obtain r2 where
    a2: "rw_push_constant_neg r1 = Inr r2" and
    o2: "bind_err (rw_push_constant_0_add r2) (\<lambda>commands.
     bind_err (rw_push_constant_0_not commands) (\<lambda>commands.
     bind_err (rw_lt_not commands) (\<lambda>commands.
     bind_err (rw_gt_not commands) (\<lambda>commands.
     bind_err (rw_cmp_if_goto commands) (\<lambda>commands.
     bind_err (rw_push_pop commands) (\<lambda>commands.
     bind_err (rw_push_inline_pop commands) (\<lambda>commands.
     bind_err (rw_pop_push commands) (\<lambda>commands.
     rw_if_goto_goto_label commands)))))))) = Inr r" by blast
  from rewrite_head[OF n1 a2[unfolded rw_push_constant_neg_def t1]] obtain t2 where t2: "r2 = c # t2" ..
  from bind_err_Inr[OF o2] obtain r3 where
    a3: "rw_push_constant_0_add r2 = Inr r3" and
    o3: "bind_err (rw_push_constant_0_not r3) (\<lambda>commands.
     bind_err (rw_lt_not commands) (\<lambda>commands.
     bind_err (rw_gt_not commands) (\<lambda>commands.
     bind_err (rw_cmp_if_goto commands) (\<lambda>commands.
     bind_err (rw_push_pop commands) (\<lambda>commands.
     bind_err (rw_push_inline_pop commands) (\<lambda>commands.
     bind_err (rw_pop_push commands) (\<lambda>commands.
     rw_if_goto_goto_label commands))))))) = Inr r" by blast
  from rewrite_head[OF n2 a3[unfolded rw_push_constant_0_add_def t2]] obtain t3 where t3: "r3 = c # t3" ..
  from bind_err_Inr[OF o3] obtain r4 where
    a4: "rw_push_constant_0_not r3 = Inr r4" and
    o4: "bind_err (rw_lt_not r4) (\<lambda>commands.
     bind_err (rw_gt_not commands) (\<lambda>commands.
     bind_err (rw_cmp_if_goto commands) (\<lambda>commands.
     bind_err (rw_push_pop commands) (\<lambda>commands.
     bind_err (rw_push_inline_pop commands) (\<lambda>commands.
     bind_err (rw_pop_push commands) (\<lambda>commands.
     rw_if_goto_goto_label commands)))))) = Inr r" by blast
  from rewrite_head[OF n2 a4[unfolded rw_push_constant_0_not_def t3]] obtain t4 where t4: "r4 = c # t4" ..
  from bind_err_Inr[OF o4] obtain r5 where
    a5: "rw_lt_not r4 = Inr r5" and
    o5: "bind_err (rw_gt_not r5) (\<lambda>commands.
     bind_err (rw_cmp_if_goto commands) (\<lambda>commands.
     bind_err (rw_push_pop commands) (\<lambda>commands.
     bind_err (rw_push_inline_pop commands) (\<lambda>commands.
     bind_err (rw_pop_push commands) (\<lambda>commands.
     rw_if_goto_goto_label commands))))) = Inr r" by blast
  from rewrite_head[OF n3 a5[unfolded rw_lt_not_def t4]] obtain t5 where t5: "r5 = c # t5" ..
  from bind_err_Inr[OF o5] obtain r6 where
    a6: "rw_gt_not r5 = Inr r6" and
    o6: "bind_err (rw_cmp_if_goto r6) (\<lambda>commands.
     bind_err (rw_push_pop commands) (\<lambda>commands.
     bind_err (rw_push_inline_pop commands) (\<lambda>commands.
     bind_err (rw_pop_push commands) (\<lambda>commands.
     rw_if_goto_goto_label commands)))) = Inr r" by blast
  from rewrite_head[OF n4 a6[unfolded rw_gt_not_def t5]] obtain t6 where t6: "r6 = c # t6" ..
  from bind_err_Inr[OF o6] obtain r7 where
    a7: "rw_cmp_if_goto r6 = Inr r7" and
    o7: "bind_err (rw_push_pop r7) (\<lambda>commands.
     bind_err (rw_push_inline_pop commands) (\<lambda>commands.
     bind_err (rw_pop_push commands) (\<lambda>commands.
     rw_if_goto_goto_label commands))) = Inr r" by blast
  from rewrite_head[OF n5 a7[unfolded rw_cmp_if_goto_def t6]] obtain t7 where t7: "r7 = c # t7" ..
  from bind_err_Inr[OF o7] obtain r8 where
    a8: "rw_push_pop r7 = Inr r8" and
    o8: "bind_err (rw_push_inline_pop r8) (\<lambda>commands.
     bind_err (rw_pop_push commands) (\<lambda>commands.
     rw_if_goto_goto_label commands)) = Inr r" by blast
  from rewrite_head[OF n5 a8[unfolded rw_push_pop_def t7]] obtain t8 where t8: "r8 = c # t8" ..
  from bind_err_Inr[OF o8] obtain r9 where
    a9: "rw_push_inline_pop r8 = Inr r9" and
    o9: "bind_err (rw_pop_push r9) (\<lambda>commands. rw_if_goto_goto_label commands) = Inr r" by blast
  from rewrite_head[OF n5 a9[unfolded rw_push_inline_pop_def t8]] obtain t9 where t9: "r9 = c # t9" ..
  from bind_err_Inr[OF o9] obtain r10 where
    a10: "rw_pop_push r9 = Inr r10" and
    o10: "rw_if_goto_goto_label r10 = Inr r" by blast
  from rewrite_head[OF n6 a10[unfolded rw_pop_push_def t9]] obtain t10 where t10: "r10 = c # t10" ..
  from rewrite_head[OF n7 o10[unfolded rw_if_goto_goto_label_def t10]] show ?thesis .
qed

lemma optimize_decl_first:
  assumes "optimize fn = Inr fn'" and "decl_first fn"
  shows "decl_first fn'"
proof -
  from bind_err_Inr[OF assms(1)[unfolded optimize_def]] obtain cs' where
    o: "optimize_commands (commands fn) = Inr cs'" and fn': "fn' = fn\<lparr>commands := cs'\<rparr>" by auto
  from assms(2) obtain c cs where c: "commands fn = c # cs" "is_function_decl c"
    "arg_at (args c) 0 = Inr (function_name fn)"
    by (auto simp: decl_first_def split: list.splits)
  from optimize_commands_head[OF c(2) o[unfolded c(1)]] obtain r where "cs' = c # r" ..
  with fn' c show ?thesis by (simp add: decl_first_def)
qed

lemma optimize_each_table_ok:
  "optimize_each fs ns = Inr fs' \<Longrightarrow> table_ok fs \<Longrightarrow> table_ok fs'"
proof (induction ns arbitrary: fs)
  case Nil
  then show ?case by simp
next
  case (Cons n ns)
  from Cons.prems(1) have "bind_err (dict_get fs n) (\<lambda>fn.
     bind_err (optimize fn) (\<lambda>fn'.
     optimize_each (dict_set fs n fn') ns)) = Inr fs'" by simp
  from bind_err_Inr[OF this] obtain fn where fn: "dict_get fs n = Inr fn"
    and r: "bind_err (optimize fn) (\<lambda>fn'. optimize_each (dict_set fs n fn') ns) = Inr fs'" by blast
  from bind_err_Inr[OF r] obtain fn' where fn': "optimize fn = Inr fn'"
    and rest: "optimize_each (dict_set fs n fn') ns = Inr fs'" by blast
  from optimize_decl_first[OF fn' table_ok_dict_get[OF Cons.prems(2) fn]] have "decl_first fn'" .
  from Cons.IH[OF rest table_ok_dict_set[OF Cons.prems(2) this]] show ?case .
qed

text \<open>
  C10. After preassembly, after the inlining pass and after the peephole pass, every
  Function of the function table starts with a \<open>function\<close> or \<open>function-ext\<close>
  declaration whose name argument is the name of the Function.
\<close>

theorem declaration_first_at_every_stage:
  assumes "preassemble Preassembler_init vm_files = Inr p"
    and "inline_pass ord (functions p) = Inr fs1"
    and "optimize_pass ord fs1 = Inr fs2"
  shows "table_ok (functions p) \<and> table_ok fs1 \<and> table_ok fs2"
proof -
  have "table_ok (functions Preassembler_init)"
    by (simp add: Preassembler_init_def table_ok_def)
  from preassemble_preserves[of table_ok, OF Preassembler_add_table_ok assms(1) this]
  have t0: "table_ok (functions p)" .
  from bind_err_Inr[OF assms(2)[unfolded inline_pass_def]] obtain seen where
    "inline_each (functions p) (ord seen) = Inr fs1" by blast
  from inline_each_table_ok[OF this t0] have t1: "table_ok fs1" .
  from bind_err_Inr[OF assms(3)[unfolded optimize_pass_def]] obtain seen' where
    "optimize_each fs1 (ord seen') = Inr fs2" by blast
  from optimize_each_table_ok[OF this t1] have "table_ok fs2" .
  with t0 t1 show ?thesis by simp
qed


theorem declaration_first_at_every_stage_witness:
  "table_ok (projr (optimize_pass id (projr (inline_pass id (functions (projr (preassemble
      Preassembler_init
      [(''Main.vm'', Some [''function Sys.init 0'', ''push constant 0'', ''not'',
                           ''call Main.f 0'', ''return'',
                           ''function Main.f 0'', ''push constant 7'', ''add'', ''return''])])))))))"
proof -
  let ?files = "[(''Main.vm'', Some [''function Sys.init 0'', ''push constant 0'', ''not'',
                           ''call Main.f 0'', ''return'',
                           ''function Main.f 0'', ''push constant 7'', ''add'', ''return''])]"
  let ?p = "projr (preassemble Preassembler_init ?files)"
  let ?fs1 = "projr (inline_pass id (functions ?p))"
  let ?fs2 = "projr (optimize_pass id ?fs1)"
  have "\<not> isl (preassemble Preassembler_init ?files)" by code_simp
  then have h1: "preassemble Preassembler_init ?files = Inr ?p" by simp
  have "\<not> isl (inline_pass id (functions ?p))" by code_simp
  then have h2: "inline_pass id (functions ?p) = Inr ?fs1" by simp
  have "\<not> isl (optimize_pass id ?fs1)" by code_simp
  then have h3: "optimize_pass id ?fs1 = Inr ?fs2" by simp
  from declaration_first_at_every_stage[OF h1 h2 h3] show ?thesis by simp
qed

section \<open>The counter of return labels\<close>





lemma next_address_label_ci: "call_index (snd (next_address_label tr n)) = call_index tr"
  by (simp add: next_address_label_def Let_def)



















section \<open>Reachability and the emitted functions\<close>

lemma dep_iter_set: "(\<And>xs. set (ord xs) = set xs) \<Longrightarrow> set (dep_iter ord d) = set (dep_names d)"
  by (cases d) auto

lemma dict_get_Some: "dict_get fs k = Inr f \<Longrightarrow> map_of fs k = Some f"
  by (simp add: dict_get_def split: option.splits)

lemma reach_loop_step:
  "reach_loop ord fs frontier seen =
     (if frontier = [] then Inr seen
      else if last frontier \<in> set seen then reach_loop ord fs (butlast frontier) seen
      else (case dict_get fs (last frontier) of
              Inl e \<Rightarrow> Inl e
            | Inr f \<Rightarrow> reach_loop ord fs (butlast frontier @ dep_iter ord (dependencies f))
                        (seen @ [last frontier])))"
  by (subst reach_loop.simps) simp

lemma reach_loop_Nil [simp]: "reach_loop ord fs [] seen = Inr seen"
  by (subst reach_loop.simps) simp

lemma in_butlast_or_last: "frontier \<noteq> [] \<Longrightarrow> set frontier = insert (last frontier) (set (butlast frontier))"
  by (metis append_butlast_last_id list.simps(15) rotate1.simps(2) set_rotate1)

lemma reach_loop_sound:
  "\<forall>xs. set (ord xs) = set xs \<Longrightarrow>
   reach_loop ord fs frontier seen = Inr res \<Longrightarrow>
   \<forall>x \<in> set seen \<union> set frontier. (s, x) \<in> (calls fs)\<^sup>* \<Longrightarrow>
   \<forall>x \<in> set res. (s, x) \<in> (calls fs)\<^sup>*"
proof (induction ord fs frontier seen rule: reach_loop.induct)
  case (1 ord fs frontier seen)
  note ord = "1.prems"(1)[rule_format]
  note run = "1.prems"(2)
  note inv = "1.prems"(3)
  show ?case
  proof (cases "frontier = []")
    case True
    with run inv show ?thesis by simp
  next
    case ne: False
    note fr = in_butlast_or_last[OF ne]
    show ?thesis
    proof (cases "last frontier \<in> set seen")
      case True
      with ne run have r: "reach_loop ord fs (butlast frontier) seen = Inr res"
        by (simp add: reach_loop_step[of ord fs frontier seen])
      have "\<forall>x\<in>set seen \<union> set (butlast frontier). (s, x) \<in> (calls fs)\<^sup>*"
        using inv fr by auto
      from "1.IH"(1)[OF _ True "1.prems"(1) r this] ne show ?thesis by simp
    next
      case nseen: False
      show ?thesis
      proof (cases "dict_get fs (last frontier)")
        case (Inl e)
        with ne nseen run show ?thesis
          by (simp add: reach_loop_step[of ord fs frontier seen])
      next
        case (Inr f)
        with ne nseen run have
          r: "reach_loop ord fs (butlast frontier @ dep_iter ord (dependencies f))
                (seen @ [last frontier]) = Inr res"
          by (simp add: reach_loop_step[of ord fs frontier seen])
        have l: "(s, last frontier) \<in> (calls fs)\<^sup>*" using inv fr by auto
        have d: "(s, y) \<in> (calls fs)\<^sup>*" if "y \<in> set (dep_iter ord (dependencies f))" for y
        proof -
          from that have "y \<in> set (dep_names (dependencies f))"
            by (cases "dependencies f") (auto simp: ord)
          with dict_get_Some[OF Inr] have "(last frontier, y) \<in> calls fs"
            by (auto simp: calls_def)
          with l show ?thesis by (rule rtrancl.rtrancl_into_rtrancl)
        qed
        have "\<forall>x\<in>set (seen @ [last frontier]) \<union>
                 set (butlast frontier @ dep_iter ord (dependencies f)). (s, x) \<in> (calls fs)\<^sup>*"
          using inv fr l d by auto
        from "1.IH"(2)[OF _ nseen Inr "1.prems"(1) r this] ne show ?thesis by simp
      qed
    qed
  qed
qed


lemma reach_loop_closed:
  "\<forall>xs. set (ord xs) = set xs \<Longrightarrow>
   reach_loop ord fs frontier seen = Inr res \<Longrightarrow>
   \<forall>x \<in> set seen. \<forall>y. (x, y) \<in> calls fs \<longrightarrow> y \<in> set seen \<union> set frontier \<Longrightarrow>
   distinct seen \<Longrightarrow>
   set seen \<union> set frontier \<subseteq> set res \<and>
   (\<forall>x \<in> set res. \<forall>y. (x, y) \<in> calls fs \<longrightarrow> y \<in> set res) \<and> distinct res"
proof (induction ord fs frontier seen rule: reach_loop.induct)
  case (1 ord fs frontier seen)
  note ord = "1.prems"(1)[rule_format]
  note run = "1.prems"(2)
  note inv = "1.prems"(3)
  note dis = "1.prems"(4)
  show ?case
  proof (cases "frontier = []")
    case True
    with run inv dis show ?thesis by auto
  next
    case ne: False
    note fr = in_butlast_or_last[OF ne]
    show ?thesis
    proof (cases "last frontier \<in> set seen")
      case True
      with ne run have r: "reach_loop ord fs (butlast frontier) seen = Inr res"
        by (simp add: reach_loop_step[of ord fs frontier seen])
      have "\<forall>x\<in>set seen. \<forall>y. (x, y) \<in> calls fs \<longrightarrow> y \<in> set seen \<union> set (butlast frontier)"
        using inv fr True by auto
      from "1.IH"(1)[OF _ True "1.prems"(1) r this dis] ne
      have "set seen \<union> set (butlast frontier) \<subseteq> set res \<and>
        (\<forall>x\<in>set res. \<forall>y. (x, y) \<in> calls fs \<longrightarrow> y \<in> set res) \<and> distinct res" by simp
      with fr True show ?thesis by auto
    next
      case nseen: False
      show ?thesis
      proof (cases "dict_get fs (last frontier)")
        case (Inl e)
        with ne nseen run show ?thesis
          by (simp add: reach_loop_step[of ord fs frontier seen])
      next
        case (Inr f)
        with ne nseen run have
          r: "reach_loop ord fs (butlast frontier @ dep_iter ord (dependencies f))
                (seen @ [last frontier]) = Inr res"
          by (simp add: reach_loop_step[of ord fs frontier seen])
        have ds: "set (dep_iter ord (dependencies f)) = set (dep_names (dependencies f))"
          by (cases "dependencies f") (auto simp: ord)
        have succ: "y \<in> set (dep_iter ord (dependencies f))" if "(last frontier, y) \<in> calls fs" for y
          using that dict_get_Some[OF Inr] ds by (auto simp: calls_def)
        have "\<forall>x\<in>set (seen @ [last frontier]). \<forall>y. (x, y) \<in> calls fs \<longrightarrow>
                y \<in> set (seen @ [last frontier]) \<union>
                    set (butlast frontier @ dep_iter ord (dependencies f))"
          using inv fr succ by auto
        moreover have "distinct (seen @ [last frontier])" using dis nseen by simp
        ultimately have "set (seen @ [last frontier]) \<union>
             set (butlast frontier @ dep_iter ord (dependencies f)) \<subseteq> set res \<and>
           (\<forall>x\<in>set res. \<forall>y. (x, y) \<in> calls fs \<longrightarrow> y \<in> set res) \<and> distinct res"
          using "1.IH"(2)[OF _ nseen Inr "1.prems"(1) r] ne by simp
        with fr show ?thesis by auto
      qed
    qed
  qed
qed

lemma reachable_functions_correct:
  assumes "\<forall>xs. set (ord xs) = set xs" and "reachable_functions ord fs s = Inr res"
  shows "set res = {x. (s, x) \<in> (calls fs)\<^sup>*} \<and> distinct res"
proof -
  from assms(2) have r: "reach_loop ord fs [s] [] = Inr res" by (simp add: reachable_functions_def)
  from reach_loop_sound[OF assms(1) r, of s] have sound: "\<forall>x\<in>set res. (s, x) \<in> (calls fs)\<^sup>*"
    by simp
  from reach_loop_closed[OF assms(1) r] have
    s: "s \<in> set res" and cl: "\<forall>x\<in>set res. \<forall>y. (x, y) \<in> calls fs \<longrightarrow> y \<in> set res"
    and d: "distinct res" by auto
  have "x \<in> set res" if "(s, x) \<in> (calls fs)\<^sup>*" for x
    using that by (induction rule: rtrancl_induct) (use s cl in auto)
  with sound d show ?thesis by auto
qed


lemma keys_ok_iff: "keys_ok fs \<longleftrightarrow> (\<forall>(k, f) \<in> set fs. function_name f = k)"
  by (simp add: keys_ok_def list_all_iff)

lemma keys_ok_dict_set: "keys_ok fs \<Longrightarrow> function_name f = k \<Longrightarrow> keys_ok (dict_set fs k f)"
  using set_dict_set[of fs k f] by (auto simp: keys_ok_iff)

lemma keys_ok_dict_get: "keys_ok fs \<Longrightarrow> dict_get fs k = Inr f \<Longrightarrow> function_name f = k"
  by (auto simp: keys_ok_iff dest: dict_get_mem)

lemma Preassembler_add_keys_ok:
  fixes p p' :: Preassembler
  assumes "Preassembler_add p c = Inr p'" and "keys_ok (functions p)"
  shows "keys_ok (functions p')"
proof -
  from Preassembler_add_result[OF assms(1)] obtain k f0 f where
    p': "functions p' = dict_set (functions p) k f" and app: "Function_append f0 c = Inr f"
    and c: "if is_function_decl c
            then arg_at (args c) 0 = Inr k \<and>
                 f0 = \<lparr>filename = pre_filename p, function_name = k,
                        commands = [], dependencies = DepSet []\<rparr>
            else dict_get (functions p) k = Inr f0" by blast
  have "function_name f0 = k"
    using c keys_ok_dict_get[OF assms(2)] by (auto split: if_splits)
  with Function_append_fields[OF app] have "function_name f = k" by simp
  with p' assms(2) show ?thesis by (simp add: keys_ok_dict_set)
qed

lemma inline_function_name: "inline fn fs = Inr fn' \<Longrightarrow> function_name fn' = function_name fn"
  by (auto simp: inline_def dest!: bind_err_Inr)

lemma optimize_function_name: "optimize fn = Inr fn' \<Longrightarrow> function_name fn' = function_name fn"
  by (auto simp: optimize_def dest!: bind_err_Inr)

lemma inline_each_keys_ok:
  "inline_each fs ns = Inr fs' \<Longrightarrow> keys_ok fs \<Longrightarrow> keys_ok fs'"
proof (induction ns arbitrary: fs)
  case Nil
  then show ?case by simp
next
  case (Cons n ns)
  from Cons.prems(1) have "bind_err (dict_get fs n) (\<lambda>fn.
     bind_err (inline fn fs) (\<lambda>fn'.
     inline_each (dict_set fs n fn') ns)) = Inr fs'" by simp
  from bind_err_Inr[OF this] obtain fn where fn: "dict_get fs n = Inr fn"
    and r: "bind_err (inline fn fs) (\<lambda>fn'. inline_each (dict_set fs n fn') ns) = Inr fs'" by blast
  from bind_err_Inr[OF r] obtain fn' where fn': "inline fn fs = Inr fn'"
    and rest: "inline_each (dict_set fs n fn') ns = Inr fs'" by blast
  from inline_function_name[OF fn'] keys_ok_dict_get[OF Cons.prems(2) fn]
  have "function_name fn' = n" by simp
  from Cons.IH[OF rest keys_ok_dict_set[OF Cons.prems(2) this]] show ?case .
qed

lemma optimize_each_keys_ok:
  "optimize_each fs ns = Inr fs' \<Longrightarrow> keys_ok fs \<Longrightarrow> keys_ok fs'"
proof (induction ns arbitrary: fs)
  case Nil
  then show ?case by simp
next
  case (Cons n ns)
  from Cons.prems(1) have "bind_err (dict_get fs n) (\<lambda>fn.
     bind_err (optimize fn) (\<lambda>fn'.
     optimize_each (dict_set fs n fn') ns)) = Inr fs'" by simp
  from bind_err_Inr[OF this] obtain fn where fn: "dict_get fs n = Inr fn"
    and r: "bind_err (optimize fn) (\<lambda>fn'. optimize_each (dict_set fs n fn') ns) = Inr fs'" by blast
  from bind_err_Inr[OF r] obtain fn' where fn': "optimize fn = Inr fn'"
    and rest: "optimize_each (dict_set fs n fn') ns = Inr fs'" by blast
  from optimize_function_name[OF fn'] keys_ok_dict_get[OF Cons.prems(2) fn]
  have "function_name fn' = n" by simp
  from Cons.IH[OF rest keys_ok_dict_set[OF Cons.prems(2) this]] show ?case .
qed

lemma optimized_table_keys_ok:
  assumes "optimized_table ord vm_files = Inr fs"
  shows "keys_ok fs"
proof -
  from bind_err_Inr[OF assms[unfolded optimized_table_def]] obtain p where
    p: "preassemble Preassembler_init vm_files = Inr p"
    and r: "bind_err (inline_pass ord (functions p)) (optimize_pass ord) = Inr fs" by blast
  from bind_err_Inr[OF r] obtain fs1 where
    i: "inline_pass ord (functions p) = Inr fs1" and o: "optimize_pass ord fs1 = Inr fs" by blast
  have "keys_ok (functions Preassembler_init)" by (simp add: Preassembler_init_def keys_ok_def)
  from preassemble_preserves[of keys_ok, OF Preassembler_add_keys_ok p this]
  have k0: "keys_ok (functions p)" .
  from bind_err_Inr[OF i[unfolded inline_pass_def]] obtain seen where
    "inline_each (functions p) (ord seen) = Inr fs1" by blast
  from inline_each_keys_ok[OF this k0] have k1: "keys_ok fs1" .
  from bind_err_Inr[OF o[unfolded optimize_pass_def]] obtain seen' where
    "optimize_each fs1 (ord seen') = Inr fs" by blast
  from optimize_each_keys_ok[OF this k1] show ?thesis .
qed


lemma begins_append [simp]: "begins (a @ b) = begins a @ begins b"
  by (induction a rule: begins.induct) auto

lemma begins_write_instructions: "begins (fst (write_instructions is glc lc)) = []"
  by (induction "is" glc lc rule: write_instructions.induct) (auto split: prod.splits)

lemma begins_translate_commands:
  "translate_commands tr cs glc lc = Inr (out, r) \<Longrightarrow> begins out = []"
proof (induction cs arbitrary: tr glc lc out r)
  case Nil
  then show ?case by simp
next
  case (Cons c cs)
  from bind_err_Inr[OF Cons.prems[unfolded translate_commands.simps]] obtain ins tr1 where
    r: "(case write_instructions ins glc lc of
       (out, glc', lc') \<Rightarrow>
         bind_err (translate_commands tr1 cs glc' lc') (\<lambda>(out', r).
         Inr (CommandLine (symbolic c) # out @ out', r))) = Inr (out, r)"
    by auto
  obtain o1 g1 l1 where w: "write_instructions ins glc lc = (o1, g1, l1)"
    by (cases "write_instructions ins glc lc") auto
  from r[unfolded w] have "bind_err (translate_commands tr1 cs g1 l1) (\<lambda>(out', r).
         Inr (CommandLine (symbolic c) # o1 @ out', r)) = Inr (out, r)" by simp
  from bind_err_Inr[OF this] obtain o2 r2 where t: "translate_commands tr1 cs g1 l1 = Inr (o2, r2)"
    and out: "out = CommandLine (symbolic c) # o1 @ o2" by auto
  from begins_write_instructions[of ins glc lc] w have "begins o1 = []" by simp
  with Cons.IH[OF t] out show ?case by simp
qed

lemma begins_Function_translate:
  assumes "Function_translate f tr glc = Inr (out, r)"
  shows "begins out = [function_name f]"
proof -
  from bind_err_Inr[OF assms[unfolded Function_translate_def Let_def]] obtain o1 r1 where
    t: "translate_commands (tr\<lparr>tr_filename := AStr (filename f), tr_function_name := function_name f\<rparr>)
       (commands f) glc 0 = Inr (o1, r1)"
    and "\<exists>lc. out = BeginLine (function_name f) # o1 @ [EndLine (function_name f) lc]"
    by auto
  with begins_translate_commands[OF t] show ?thesis by auto
qed

lemma begins_emit_each:
  "emit_each fs ns tr glc = Inr out \<Longrightarrow> keys_ok fs \<Longrightarrow> begins out = ns"
proof (induction ns arbitrary: tr glc out)
  case Nil
  then show ?case by simp
next
  case (Cons n ns)
  from bind_err_Inr[OF Cons.prems(1)[unfolded emit_each.simps]] obtain fn where
    fn: "dict_get fs n = Inr fn"
    and r: "bind_err (Function_translate fn tr glc) (\<lambda>(out, tr', glc').
     bind_err (emit_each fs ns tr' glc') (\<lambda>out'. Inr (out @ out'))) = Inr out" by blast
  from bind_err_Inr[OF r] obtain o1 tr1 g1 where
    ft: "Function_translate fn tr glc = Inr (o1, tr1, g1)"
    and r2: "bind_err (emit_each fs ns tr1 g1) (\<lambda>out'. Inr (o1 @ out')) = Inr out" by auto
  from bind_err_Inr[OF r2] obtain o2 where e: "emit_each fs ns tr1 g1 = Inr o2"
    and out: "out = o1 @ o2" by auto
  from begins_Function_translate[OF ft] keys_ok_dict_get[OF Cons.prems(2) fn]
  have "begins o1 = [n]" by simp
  with Cons.IH[OF e Cons.prems(2)] out show ?case by simp
qed

lemma begins_preamble: "begins (fst (preamble init_vm)) = []"
  using begins_write_instructions[of "fst (asm_init_vm ASMTranslator_init)" 0 0]
  by (auto simp: preamble_def split: prod.splits)

lemma translate_begins:
  assumes "optimized_table ord vm_files = Inr fs"
    and "translate ord program init_vm vm_files = Inr out"
  shows "\<exists>seen. reachable_functions ord fs Sys_init = Inr seen \<and> begins out = ord seen"
proof -
  obtain init tr glc where pre: "preamble init_vm = (init, tr, glc)"
    by (cases "preamble init_vm") auto
  from assms have "bind_err (emit_pass ord fs tr glc) (\<lambda>out.
         Inr (ProgramLine program # init @ out)) = Inr out"
    by (simp add: translate_def bind_err_def pre)
  from bind_err_Inr[OF this] obtain o1 where e: "emit_pass ord fs tr glc = Inr o1"
    and out: "out = ProgramLine program # init @ o1" by auto
  from bind_err_Inr[OF e[unfolded emit_pass_def]] obtain seen where
    seen: "reachable_functions ord fs Sys_init = Inr seen"
    and ee: "emit_each fs (ord seen) tr glc = Inr o1" by blast
  from begins_emit_each[OF ee optimized_table_keys_ok[OF assms(1)]] have "begins o1 = ord seen" .
  moreover from begins_preamble[of init_vm] pre have "begins init = []" by simp
  ultimately show ?thesis using out seen by simp
qed

section \<open>A single file on the command line\<close>

lemma reachable_needs_start:
  "reachable_functions ord fs s = Inr seen \<Longrightarrow> map_of fs s \<noteq> None"
  by (auto simp: reachable_functions_def reach_loop_step[of ord fs "[s]" "[]"] dict_get_def
      split: option.splits)

lemma reachable_missing_start:
  "map_of fs s = None \<Longrightarrow> reachable_functions ord fs s = Inl (KeyError (str_arg s))"
  by (simp add: reachable_functions_def reach_loop_step[of ord fs "[s]" "[]"] dict_get_def)

lemma emit_each_shape:
  "emit_each fs ns tr glc = Inr out \<Longrightarrow> out = [] \<or> (\<exists>f rest. out = BeginLine f # rest)"
proof (cases ns)
  case Nil
  assume "emit_each fs ns tr glc = Inr out"
  with Nil show ?thesis by simp
next
  case (Cons n ns')
  assume a: "emit_each fs ns tr glc = Inr out"
  from bind_err_Inr[OF a[unfolded Cons emit_each.simps]] obtain fn where
    r: "bind_err (Function_translate fn tr glc) (\<lambda>(out, tr', glc').
     bind_err (emit_each fs ns' tr' glc') (\<lambda>out'. Inr (out @ out'))) = Inr out" by blast
  from bind_err_Inr[OF r] obtain o1 tr1 g1 where
    ft: "Function_translate fn tr glc = Inr (o1, tr1, g1)"
    and r2: "bind_err (emit_each fs ns' tr1 g1) (\<lambda>out'. Inr (o1 @ out')) = Inr out" by auto
  from bind_err_Inr[OF r2] obtain o2 where out: "out = o1 @ o2" by auto
  from bind_err_Inr[OF ft[unfolded Function_translate_def Let_def]]
  obtain x where "o1 = BeginLine (function_name fn) # x" by auto
  with out show ?thesis by simp
qed

text \<open>
  C5, as the claim states it, fails: for a well-formed unit-test file that supplies
  its own bootstrap and does not define \<open>Sys.init\<close>, the run ends with the KeyError
  of \<open>reachable_functions('Sys.init')\<close>, exit status 1.
\<close>

theorem single_file_without_Sys_init_counterexample:
  "main id
     \<lparr>isdir = (\<lambda>p. False), listdir = (\<lambda>p. []),
      read_lines = (\<lambda>p. if p = ''SimpleFunction.vm''
                          then Some [''function SimpleFunction.test 2'', ''push local 0'',
                                     ''push local 1'', ''add'', ''not'', ''push argument 0'',
                                     ''add'', ''push argument 1'', ''sub'', ''return'']
                          else None)\<rparr>
     ''SimpleFunction.vm''
   = (1, ''SimpleFunction.asm'', Inl (KeyError ''Sys.init''))"
  by code_simp

text \<open>
  C5, amended. Given a path that is not a directory, the translator translates that
  one file, with \<open>init_vm\<close> false, into the \<open>.asm\<close> file beside it. When the run
  succeeds the exit status is 0, the file defines \<open>Sys.init\<close>, and the output is the
  \<open>// Program:\<close> line followed at once by the blocks of the functions, with no
  VM-init prologue. When the file, parsed and preassembled without error, does not
  define \<open>Sys.init\<close>, the run fails with \<open>KeyError: 'Sys.init'\<close> and exit status 1.
\<close>

theorem single_file_mode:
  assumes "\<not> isdir fs path" and "main ord fs path = (code, asm_file, r)"
  shows "asm_file = join_path (dirname path) (splitext_root (basename path) @ ''.asm'') \<and>
         r = translate ord (splitext_root (basename path)) False [(path, read_lines fs path)] \<and>
         (\<forall>out. r = Inr out \<longrightarrow>
            code = 0 \<and>
            (\<exists>p. preassemble Preassembler_init [(path, read_lines fs path)] = Inr p \<and>
                 map_of (functions p) Sys_init \<noteq> None) \<and>
            (\<exists>blocks. out = ProgramLine (splitext_root (basename path)) # blocks \<and>
                 (blocks = [] \<or> (\<exists>f rest. blocks = BeginLine f # rest)))) \<and>
         (\<forall>p. preassemble Preassembler_init [(path, read_lines fs path)] = Inr p \<and>
              map_of (functions p) Sys_init = None \<longrightarrow>
            code = 1 \<and> r = Inl (KeyError ''Sys.init''))"
proof -
  let ?prog = "splitext_root (basename path)"
  let ?files = "[(path, read_lines fs path)]"
  from assms have asm: "asm_file = join_path (dirname path) (?prog @ ''.asm'')"
    and r: "r = translate ord ?prog False ?files"
    and code: "code = (case r of Inl e \<Rightarrow> 1 | Inr out \<Rightarrow> 0)"
    by (auto simp: main_def Let_def)
  have ok: "code = 0 \<and>
            (\<exists>p. preassemble Preassembler_init ?files = Inr p \<and> map_of (functions p) Sys_init \<noteq> None) \<and>
            (\<exists>blocks. out = ProgramLine ?prog # blocks \<and>
                 (blocks = [] \<or> (\<exists>f rest. blocks = BeginLine f # rest)))"
    if out: "r = Inr out" for out
  proof -
    from out code have c0: "code = 0" by simp
    from out r have t: "translate ord ?prog False ?files = Inr out" by simp
    from bind_err_Inr[OF t[unfolded translate_def]] obtain tab where
      tab: "optimized_table ord ?files = Inr tab"
      and e: "(case preamble False of
       (init, translator, global_line_count) \<Rightarrow>
         bind_err (emit_pass ord tab translator global_line_count) (\<lambda>out.
         Inr (ProgramLine ?prog # init @ out))) = Inr out" by blast
    from e have "bind_err (emit_pass ord tab ASMTranslator_init 0) (\<lambda>out.
         Inr (ProgramLine ?prog # out)) = Inr out" by (simp add: preamble_def)
    from bind_err_Inr[OF this] obtain blocks where
      ep: "emit_pass ord tab ASMTranslator_init 0 = Inr blocks"
      and o: "out = ProgramLine ?prog # blocks" by auto
    from bind_err_Inr[OF ep[unfolded emit_pass_def]] obtain seen where
      "emit_each tab (ord seen) ASMTranslator_init 0 = Inr blocks" by blast
    from emit_each_shape[OF this] have sh: "blocks = [] \<or> (\<exists>f rest. blocks = BeginLine f # rest)" .
    from bind_err_Inr[OF tab[unfolded optimized_table_def]] obtain p where
      p: "preassemble Preassembler_init ?files = Inr p"
      and i: "bind_err (inline_pass ord (functions p)) (optimize_pass ord) = Inr tab" by blast
    from bind_err_Inr[OF i] obtain fs1 where "inline_pass ord (functions p) = Inr fs1" by blast
    from bind_err_Inr[OF this[unfolded inline_pass_def]] obtain seen0 where
      "reachable_functions ord (functions p) Sys_init = Inr seen0" by blast
    from reachable_needs_start[OF this] p have
      "\<exists>p. preassemble Preassembler_init ?files = Inr p \<and> map_of (functions p) Sys_init \<noteq> None"
      by blast
    with c0 o sh show ?thesis by blast
  qed
  have bad: "code = 1 \<and> r = Inl (KeyError ''Sys.init'')"
    if p: "preassemble Preassembler_init ?files = Inr p" and n: "map_of (functions p) Sys_init = None"
    for p
  proof -
    from reachable_missing_start[OF n, of ord] have
      "inline_pass ord (functions p) = Inl (KeyError ''Sys.init'')"
      by (simp add: inline_pass_def bind_err_def Sys_init_def)
    with p have "optimized_table ord ?files = Inl (KeyError ''Sys.init'')"
      by (simp add: optimized_table_def bind_err_def)
    then have "translate ord ?prog False ?files = Inl (KeyError ''Sys.init'')"
      by (simp add: translate_def bind_err_def)
    with r code show ?thesis by simp
  qed
  from asm r ok bad show ?thesis by blast
qed


theorem single_file_mode_witness:
  "fst (main id
     \<lparr>isdir = (\<lambda>p. False), listdir = (\<lambda>p. []),
      read_lines = (\<lambda>p. if p = ''demo/Prog.vm''
                          then Some [''function Sys.init 0'', ''push constant 7'', ''return'']
                          else None)\<rparr>
     ''demo/Prog.vm'') = 0
   \<and> fst (main id
     \<lparr>isdir = (\<lambda>p. False), listdir = (\<lambda>p. []),
      read_lines = (\<lambda>p. if p = ''demo/Test.vm''
                          then Some [''function Test.run 0'', ''push constant 7'', ''return'']
                          else None)\<rparr>
     ''demo/Test.vm'') = 1"
proof -
  let ?fa = "\<lparr>isdir = (\<lambda>p. False), listdir = (\<lambda>p. []),
      read_lines = (\<lambda>p. if p = ''demo/Prog.vm''
                          then Some [''function Sys.init 0'', ''push constant 7'', ''return'']
                          else None)\<rparr>"
  let ?fb = "\<lparr>isdir = (\<lambda>p. False), listdir = (\<lambda>p. []),
      read_lines = (\<lambda>p. if p = ''demo/Test.vm''
                          then Some [''function Test.run 0'', ''push constant 7'', ''return'']
                          else None)\<rparr>"
  let ?ma = "main id ?fa ''demo/Prog.vm''"
  let ?mb = "main id ?fb ''demo/Test.vm''"
  have da: "\<not> isdir ?fa ''demo/Prog.vm''" by simp
  have db: "\<not> isdir ?fb ''demo/Test.vm''" by simp
  have ma: "?ma = (fst ?ma, fst (snd ?ma), snd (snd ?ma))" by simp
  have mb: "?mb = (fst ?mb, fst (snd ?mb), snd (snd ?mb))" by simp
  have "\<not> isl (snd (snd ?ma))" by code_simp
  then have ra: "snd (snd ?ma) = Inr (projr (snd (snd ?ma)))" by simp
  from single_file_mode[OF da ma] ra have a: "fst ?ma = 0" by blast
  let ?pb = "projr (preassemble Preassembler_init [(''demo/Test.vm'', read_lines ?fb ''demo/Test.vm'')])"
  have "\<not> isl (preassemble Preassembler_init [(''demo/Test.vm'', read_lines ?fb ''demo/Test.vm'')])"
    by code_simp
  then have pb: "preassemble Preassembler_init [(''demo/Test.vm'', read_lines ?fb ''demo/Test.vm'')]
                   = Inr ?pb" by simp
  have nb: "map_of (functions ?pb) Sys_init = None" by code_simp
  from single_file_mode[OF db mb] pb nb have b: "fst ?mb = 1" by blast
  from a b show ?thesis by simp
qed

section \<open>The order of iteration over a set\<close>




lemma call_starts: "is_call c \<Longrightarrow> startswith (symbolic c) ''c''"
proof -
  assume a: "is_call c"
  obtain r where r: "symbolic c = command c @ r" using symbolic_command by blast
  from a show ?thesis unfolding is_call_def r by (auto simp: startswith_def)
qed




lemma inline_loop_call_step:
  assumes "inline_loop fn fs (x # xs) = Inr (cs', ds)" and "is_call x"
  shows "\<exists>k g ic a b. arg_at (args x) 0 = Inr k \<and> dict_get fs k = Inr g \<and>
           try_inline g = Inr ic \<and> inline_loop fn fs xs = Inr (a, b) \<and>
           ((\<forall>ics. ic = Some ics \<longrightarrow>
                cs' = Cmd ''inline-call'' [AStr (filename g), function_name g] # ics
                      @ [Cmd ''inline-return'' [AStr (filename fn), function_name fn]] @ a
                \<and> ds = b) \<and>
            (ic = None \<longrightarrow> cs' = x # a \<and> ds = k # b))"
proof -
  from assms have
    "bind_err (arg_at (args x) 0) (\<lambda>called_function_name.
        bind_err (dict_get fs called_function_name) (\<lambda>inline_function.
        bind_err (try_inline inline_function) (\<lambda>inline_commands.
        bind_err (inline_loop fn fs xs) (\<lambda>(commands', dependencies').
        case inline_commands of
          Some ics \<Rightarrow>
            Inr (Cmd ''inline-call''
                   [AStr (filename inline_function), function_name inline_function]
                 # ics
                 @ [Cmd ''inline-return'' [AStr (filename fn), function_name fn]]
                 @ commands',
                 dependencies')
        | None \<Rightarrow> Inr (x # commands', called_function_name # dependencies'))))) = Inr (cs', ds)"
    by simp
  from bind_err_Inr[OF this] obtain k where k: "arg_at (args x) 0 = Inr k" and
    r1: "bind_err (dict_get fs k) (\<lambda>inline_function.
        bind_err (try_inline inline_function) (\<lambda>inline_commands.
        bind_err (inline_loop fn fs xs) (\<lambda>(commands', dependencies').
        case inline_commands of
          Some ics \<Rightarrow>
            Inr (Cmd ''inline-call''
                   [AStr (filename inline_function), function_name inline_function]
                 # ics
                 @ [Cmd ''inline-return'' [AStr (filename fn), function_name fn]]
                 @ commands',
                 dependencies')
        | None \<Rightarrow> Inr (x # commands', k # dependencies')))) = Inr (cs', ds)" by blast
  from bind_err_Inr[OF r1] obtain g where g: "dict_get fs k = Inr g" and
    r2: "bind_err (try_inline g) (\<lambda>inline_commands.
        bind_err (inline_loop fn fs xs) (\<lambda>(commands', dependencies').
        case inline_commands of
          Some ics \<Rightarrow>
            Inr (Cmd ''inline-call'' [AStr (filename g), function_name g]
                 # ics
                 @ [Cmd ''inline-return'' [AStr (filename fn), function_name fn]]
                 @ commands',
                 dependencies')
        | None \<Rightarrow> Inr (x # commands', k # dependencies'))) = Inr (cs', ds)" by blast
  from bind_err_Inr[OF r2] obtain ic where ic: "try_inline g = Inr ic" and
    r3: "bind_err (inline_loop fn fs xs) (\<lambda>(commands', dependencies').
        case ic of
          Some ics \<Rightarrow>
            Inr (Cmd ''inline-call'' [AStr (filename g), function_name g]
                 # ics
                 @ [Cmd ''inline-return'' [AStr (filename fn), function_name fn]]
                 @ commands',
                 dependencies')
        | None \<Rightarrow> Inr (x # commands', k # dependencies')) = Inr (cs', ds)" by blast
  from bind_err_Inr[OF r3] obtain a b where ab: "inline_loop fn fs xs = Inr (a, b)" and
    fin: "(case ic of
          Some ics \<Rightarrow>
            Inr (Cmd ''inline-call'' [AStr (filename g), function_name g]
                 # ics
                 @ [Cmd ''inline-return'' [AStr (filename fn), function_name fn]]
                 @ a, b)
        | None \<Rightarrow> Inr (x # a, k # b)) = (Inr (cs', ds) :: error + Command list \<times> arg list)"
    by auto
  from fin have "((\<forall>ics. ic = Some ics \<longrightarrow>
                cs' = Cmd ''inline-call'' [AStr (filename g), function_name g] # ics
                      @ [Cmd ''inline-return'' [AStr (filename fn), function_name fn]] @ a
                \<and> ds = b) \<and>
            (ic = None \<longrightarrow> cs' = x # a \<and> ds = k # b))"
    by (cases ic) auto
  with k g ic ab show ?thesis by blast
qed








lemma bind_err_simps [simp]: "bind_err (Inr x) f = f x" "bind_err (Inl e) f = Inl e"
  by (simp_all add: bind_err_def)


















section \<open>The emitted functions and the call graph\<close>

lemma call_targets_append [simp]: "call_targets (xs @ ys) = call_targets xs \<union> call_targets ys"
  by (auto simp: call_targets_def)

lemma call_targets_Nil [simp]: "call_targets [] = {}"
  by (simp add: call_targets_def)

lemma call_targets_Cons:
  "call_targets (c # cs) =
     (if is_call c then {k. arg_at (args c) 0 = Inr k} else {}) \<union> call_targets cs"
  by (auto simp: call_targets_def)

lemma dep_add_names:
  "dep_add x d = Inr d' \<Longrightarrow> set (dep_names d') = insert x (set (dep_names d))"
  by (cases d) (auto split: if_splits)

lemma Function_append_cover:
  assumes "Function_append f c = Inr f'"
    and "call_targets (commands f) \<subseteq> set (dep_names (dependencies f))"
  shows "call_targets (commands f') \<subseteq> set (dep_names (dependencies f'))"
proof (cases "is_call c")
  case False
  with assms show ?thesis
    by (auto simp: Function_append_def Let_def call_targets_Cons)
next
  case True
  with assms(1) have "bind_err (arg_at (args c) 0) (\<lambda>name.
        bind_err (dep_add name (dependencies f)) (\<lambda>d.
        Inr (f\<lparr>commands := commands f @ [c], dependencies := d\<rparr>))) = Inr f'"
    by (simp add: Function_append_def Let_def)
  from bind_err_Inr[OF this] obtain name where n: "arg_at (args c) 0 = Inr name"
    and r: "bind_err (dep_add name (dependencies f)) (\<lambda>d.
        Inr (f\<lparr>commands := commands f @ [c], dependencies := d\<rparr>)) = Inr f'" by blast
  from bind_err_Inr[OF r] obtain d where d: "dep_add name (dependencies f) = Inr d"
    and f': "f' = f\<lparr>commands := commands f @ [c], dependencies := d\<rparr>" by auto
  from d have "set (dep_names d) = insert name (set (dep_names (dependencies f)))"
    by (rule dep_add_names)
  with f' n True assms(2) show ?thesis by (auto simp: call_targets_Cons)
qed

lemma deps_cover_dict_set:
  "deps_cover fs \<Longrightarrow> call_targets (commands f) \<subseteq> set (dep_names (dependencies f)) \<Longrightarrow>
   deps_cover (dict_set fs k f)"
  using set_dict_set[of fs k f] by (auto simp: deps_cover_def)

lemma Preassembler_add_deps_cover:
  fixes p p' :: Preassembler
  assumes "Preassembler_add p c = Inr p'" and "deps_cover (functions p)"
  shows "deps_cover (functions p')"
proof -
  from Preassembler_add_result[OF assms(1)] obtain k f0 f where
    p': "functions p' = dict_set (functions p) k f" and app: "Function_append f0 c = Inr f"
    and c: "if is_function_decl c
            then arg_at (args c) 0 = Inr k \<and>
                 f0 = \<lparr>filename = pre_filename p, function_name = k,
                        commands = [], dependencies = DepSet []\<rparr>
            else dict_get (functions p) k = Inr f0" by blast
  have "call_targets (commands f0) \<subseteq> set (dep_names (dependencies f0))"
  proof (cases "is_function_decl c")
    case True
    with c show ?thesis by simp
  next
    case False
    with c have "(k, f0) \<in> set (functions p)" by (auto dest: dict_get_mem)
    with assms(2) show ?thesis by (auto simp: deps_cover_def)
  qed
  from Function_append_cover[OF app this] p' assms(2) show ?thesis
    by (simp add: deps_cover_dict_set)
qed

lemma try_inline_no_calls:
  assumes "try_inline g = Inr (Some ics)"
  shows "call_targets ics = {}"
proof -
  have push: "\<not> is_call c" if "startswith (symbolic c) ''push''" for c
    using that call_starts[of c] by (cases "symbolic c") (auto simp: startswith_def)
  have acc: "\<not> is_call (commands g ! 1)" if "is_constant_accessor g \<or> is_static_accessor g"
  proof -
    from that have "re_match [Lit ''push constant '', DotStar] (symbolic (commands g ! 1)) \<or>
                    re_match [Lit ''push static '', DotStar] (symbolic (commands g ! 1))"
      unfolding is_constant_accessor_def is_static_accessor_def match_code_def
      by (cases "commands g"; cases "tl (commands g)") (auto split: if_splits)
    then have "startswith (symbolic (commands g ! 1)) ''push''"
      by (auto simp: startswith_def dest: arg_cong[where f = "take 4"])
    then show ?thesis by (rule push)
  qed
  from assms acc show ?thesis
    by (auto simp: try_inline_def call_targets_def is_call_def split: if_splits dest!: bind_err_Inr)
qed


lemma inline_loop_targets:
  "inline_loop fn fs cs = Inr (cs', ds) \<Longrightarrow>
   set ds \<subseteq> call_targets cs \<and> call_targets cs' \<subseteq> call_targets cs"
proof (induction cs arbitrary: cs' ds)
  case Nil
  then show ?case by simp
next
  case (Cons x xs)
  show ?case
  proof (cases "is_call x")
    case False
    from Cons.prems False have "bind_err (inline_loop fn fs xs) (\<lambda>(commands', dependencies').
        Inr (x # commands', dependencies')) = Inr (cs', ds)" by simp
    from bind_err_Inr[OF this] obtain a b where ab: "inline_loop fn fs xs = Inr (a, b)"
      and "cs' = x # a" "ds = b" by auto
    with Cons.IH[OF ab] False show ?thesis by (auto simp: call_targets_Cons)
  next
    case True
    from inline_loop_call_step[OF Cons.prems True] obtain k g ic a b where
      k: "arg_at (args x) 0 = Inr k" and g: "dict_get fs k = Inr g"
      and ic: "try_inline g = Inr ic" and ab: "inline_loop fn fs xs = Inr (a, b)"
      and s: "\<forall>ics. ic = Some ics \<longrightarrow>
                cs' = Cmd ''inline-call'' [AStr (filename g), function_name g] # ics
                      @ [Cmd ''inline-return'' [AStr (filename fn), function_name fn]] @ a
                \<and> ds = b"
      and n: "ic = None \<longrightarrow> cs' = x # a \<and> ds = k # b" by blast
    note ih = Cons.IH[OF ab]
    show ?thesis
    proof (cases ic)
      case None
      with n have "cs' = x # a" "ds = k # b" by simp_all
      with ih True k show ?thesis by (auto simp: call_targets_Cons)
    next
      case (Some ics)
      with s have cs': "cs' = Cmd ''inline-call'' [AStr (filename g), function_name g] # ics
                      @ [Cmd ''inline-return'' [AStr (filename fn), function_name fn]] @ a"
        and ds: "ds = b" by simp_all
      from ic Some have "call_targets ics = {}" by (simp add: try_inline_no_calls)
      then have "call_targets cs' = call_targets a"
        unfolding cs' by (simp add: call_targets_Cons is_call_def)
      with ih ds show ?thesis by (auto simp: call_targets_Cons)
    qed
  qed
qed

lemma deps_cover_fewer_calls: "deps_cover fs \<Longrightarrow> fewer_calls fs fs"
  by (auto simp: deps_cover_def fewer_calls_def dest: map_of_SomeD)

lemma fewer_callsD:
  "fewer_calls fs0 fs \<Longrightarrow> map_of fs k = Some g \<Longrightarrow>
   \<exists>g0. map_of fs0 k = Some g0 \<and>
        call_targets (commands g) \<subseteq> set (dep_names (dependencies g0)) \<and>
        set (dep_names (dependencies g)) \<subseteq> set (dep_names (dependencies g0))"
  unfolding fewer_calls_def by blast

lemma fewer_depsD:
  "fewer_deps fs0 fs \<Longrightarrow> map_of fs k = Some g \<Longrightarrow>
   \<exists>g0. map_of fs0 k = Some g0 \<and>
        set (dep_names (dependencies g)) \<subseteq> set (dep_names (dependencies g0))"
  unfolding fewer_deps_def by blast

lemma fewer_calls_dict_set:
  assumes "fewer_calls fs0 fs" and "map_of fs n = Some fn"
    and "call_targets (commands fn') \<subseteq> call_targets (commands fn)"
    and "set (dep_names (dependencies fn')) \<subseteq> call_targets (commands fn)"
  shows "fewer_calls fs0 (dict_set fs n fn')"
  unfolding fewer_calls_def
proof (intro allI impI)
  fix k g assume kg: "map_of (dict_set fs n fn') k = Some g"
  show "\<exists>g0. map_of fs0 k = Some g0 \<and>
              call_targets (commands g) \<subseteq> set (dep_names (dependencies g0)) \<and>
              set (dep_names (dependencies g)) \<subseteq> set (dep_names (dependencies g0))"
  proof (cases "k = n")
    case True
    with kg have "g = fn'" by (simp add: map_of_dict_set)
    moreover from fewer_callsD[OF assms(1,2)] obtain g0 where "map_of fs0 n = Some g0"
      "call_targets (commands fn) \<subseteq> set (dep_names (dependencies g0))"
      by blast
    ultimately show ?thesis using True assms(3,4) by auto
  next
    case False
    with kg have "map_of fs k = Some g" by (simp add: map_of_dict_set)
    from fewer_callsD[OF assms(1) this] show ?thesis .
  qed
qed

lemma inline_each_fewer_calls:
  "inline_each fs ns = Inr fs' \<Longrightarrow> fewer_calls fs0 fs \<Longrightarrow> fewer_calls fs0 fs'"
proof (induction ns arbitrary: fs)
  case Nil
  then show ?case by simp
next
  case (Cons n ns)
  from Cons.prems(1) have "bind_err (dict_get fs n) (\<lambda>fn.
     bind_err (inline fn fs) (\<lambda>fn'.
     inline_each (dict_set fs n fn') ns)) = Inr fs'" by simp
  from bind_err_Inr[OF this] obtain fn where fn: "dict_get fs n = Inr fn"
    and r: "bind_err (inline fn fs) (\<lambda>fn'. inline_each (dict_set fs n fn') ns) = Inr fs'" by blast
  from bind_err_Inr[OF r] obtain fn' where fn': "inline fn fs = Inr fn'"
    and rest: "inline_each (dict_set fs n fn') ns = Inr fs'" by blast
  from bind_err_Inr[OF fn'[unfolded inline_def]] obtain cs' ds where
    l: "inline_loop fn fs (commands fn) = Inr (cs', ds)"
    and e: "fn' = fn\<lparr>commands := cs', dependencies := DepList ds\<rparr>" by auto
  from inline_loop_targets[OF l] e have
    "call_targets (commands fn') \<subseteq> call_targets (commands fn)"
    "set (dep_names (dependencies fn')) \<subseteq> call_targets (commands fn)" by simp_all
  from fewer_calls_dict_set[OF Cons.prems(2) dict_get_Some[OF fn] this]
  have "fewer_calls fs0 (dict_set fs n fn')" .
  from Cons.IH[OF rest this] show ?case .
qed

lemma fewer_calls_deps: "fewer_calls fs0 fs \<Longrightarrow> fewer_deps fs0 fs"
  unfolding fewer_deps_def using fewer_callsD[of fs0 fs] by blast

lemma optimize_dependencies: "optimize fn = Inr fn' \<Longrightarrow> dependencies fn' = dependencies fn"
  by (auto simp: optimize_def dest!: bind_err_Inr)

lemma optimize_each_fewer_deps:
  "optimize_each fs ns = Inr fs' \<Longrightarrow> fewer_deps fs0 fs \<Longrightarrow> fewer_deps fs0 fs'"
proof (induction ns arbitrary: fs)
  case Nil
  then show ?case by simp
next
  case (Cons n ns)
  from Cons.prems(1) have "bind_err (dict_get fs n) (\<lambda>fn.
     bind_err (optimize fn) (\<lambda>fn'.
     optimize_each (dict_set fs n fn') ns)) = Inr fs'" by simp
  from bind_err_Inr[OF this] obtain fn where fn: "dict_get fs n = Inr fn"
    and r: "bind_err (optimize fn) (\<lambda>fn'. optimize_each (dict_set fs n fn') ns) = Inr fs'" by blast
  from bind_err_Inr[OF r] obtain fn' where fn': "optimize fn = Inr fn'"
    and rest: "optimize_each (dict_set fs n fn') ns = Inr fs'" by blast
  note d = optimize_dependencies[OF fn']
  have "fewer_deps fs0 (dict_set fs n fn')"
    unfolding fewer_deps_def
  proof (intro allI impI)
    fix k g assume kg: "map_of (dict_set fs n fn') k = Some g"
    show "\<exists>g0. map_of fs0 k = Some g0 \<and>
              set (dep_names (dependencies g)) \<subseteq> set (dep_names (dependencies g0))"
    proof (cases "k = n")
      case True
      with kg have "g = fn'" by (simp add: map_of_dict_set)
      with True d fewer_depsD[OF Cons.prems(2) dict_get_Some[OF fn]] show ?thesis
        by auto
    next
      case False
      with kg have "map_of fs k = Some g" by (simp add: map_of_dict_set)
      from fewer_depsD[OF Cons.prems(2) this] show ?thesis .
    qed
  qed
  from Cons.IH[OF rest this] show ?case .
qed

lemma fewer_deps_calls: "fewer_deps fs0 fs \<Longrightarrow> calls fs \<subseteq> calls fs0"
  unfolding calls_def using fewer_depsD[of fs0 fs] by blast

lemma optimized_table_calls:
  assumes "preassemble Preassembler_init vm_files = Inr p"
    and "optimized_table ord vm_files = Inr fs"
  shows "calls fs \<subseteq> calls (functions p)"
proof -
  from assms have r: "bind_err (inline_pass ord (functions p)) (optimize_pass ord) = Inr fs"
    by (simp add: optimized_table_def)
  from bind_err_Inr[OF r] obtain fs1 where
    i: "inline_pass ord (functions p) = Inr fs1" and o: "optimize_pass ord fs1 = Inr fs" by blast
  have "deps_cover (functions Preassembler_init)"
    by (simp add: Preassembler_init_def deps_cover_def)
  from preassemble_preserves[of deps_cover, OF Preassembler_add_deps_cover assms(1) this]
  have c0: "fewer_calls (functions p) (functions p)" by (rule deps_cover_fewer_calls)
  from bind_err_Inr[OF i[unfolded inline_pass_def]] obtain seen where
    "inline_each (functions p) (ord seen) = Inr fs1" by blast
  from inline_each_fewer_calls[OF this c0] have c1: "fewer_deps (functions p) fs1"
    by (rule fewer_calls_deps)
  from bind_err_Inr[OF o[unfolded optimize_pass_def]] obtain seen' where
    "optimize_each fs1 (ord seen') = Inr fs" by blast
  from optimize_each_fewer_deps[OF this c1] show ?thesis by (rule fewer_deps_calls)
qed

text \<open>
  C3. The functions whose block the output holds are exactly those that the dependency
  edges of the function table, as it is when the output is written, connect to
  \<open>Sys.init\<close>; and they are among those that the dependency edges of the table as
  preassembled, the calls of the source, connect to \<open>Sys.init\<close>. So every emitted
  function is transitively reachable from \<open>Sys.init\<close>, and a function that is not
  transitively called from \<open>Sys.init\<close> does not appear. \<open>ord\<close>, the order in which
  the interpreter iterates over a set, is only required to visit the elements of the
  set.
\<close>

theorem emitted_functions_are_reachable:
  assumes "\<forall>xs. set (ord xs) = set xs"
    and "preassemble Preassembler_init vm_files = Inr p"
    and "optimized_table ord vm_files = Inr fs"
    and "translate ord program init_vm vm_files = Inr out"
  shows "set (begins out) = {f. (Sys_init, f) \<in> (calls fs)\<^sup>*} \<and>
         set (begins out) \<subseteq> {f. (Sys_init, f) \<in> (calls (functions p))\<^sup>*}"
proof -
  from translate_begins[OF assms(3,4)] obtain seen where
    seen: "reachable_functions ord fs Sys_init = Inr seen" and b: "begins out = ord seen" by blast
  from reachable_functions_correct[OF assms(1) seen] b assms(1)
  have e: "set (begins out) = {f. (Sys_init, f) \<in> (calls fs)\<^sup>*}" by simp
  from rtrancl_mono[OF optimized_table_calls[OF assms(2,3)]]
  have "{f. (Sys_init, f) \<in> (calls fs)\<^sup>*} \<subseteq> {f. (Sys_init, f) \<in> (calls (functions p))\<^sup>*}"
    by auto
  with e show ?thesis by simp
qed


theorem emitted_functions_are_reachable_witness:
  "begins (projr (translate id ''Main'' False
     [(''Main.vm'', Some [''function Sys.init 0'', ''call Main.f 0'', ''return'',
                          ''function Main.f 1'', ''push local 0'', ''return'',
                          ''function Main.unused 0'', ''call Main.f 0'', ''return''])]))
     = [AStr ''Sys.init'', AStr ''Main.f'']
   \<and> {f. (Sys_init, f) \<in> (calls (projr (optimized_table id
     [(''Main.vm'', Some [''function Sys.init 0'', ''call Main.f 0'', ''return'',
                          ''function Main.f 1'', ''push local 0'', ''return'',
                          ''function Main.unused 0'', ''call Main.f 0'', ''return''])])))\<^sup>*}
     = {AStr ''Sys.init'', AStr ''Main.f''}"
proof -
  let ?files = "[(''Main.vm'', Some [''function Sys.init 0'', ''call Main.f 0'', ''return'',
                          ''function Main.f 1'', ''push local 0'', ''return'',
                          ''function Main.unused 0'', ''call Main.f 0'', ''return''])]"
  have o: "\<forall>xs :: arg list. set (id xs) = set xs" by simp
  have "\<not> isl (preassemble Preassembler_init ?files)" by code_simp
  then have p: "preassemble Preassembler_init ?files = Inr (projr (preassemble Preassembler_init ?files))"
    by simp
  have "\<not> isl (optimized_table id ?files)" by code_simp
  then have t: "optimized_table id ?files = Inr (projr (optimized_table id ?files))" by simp
  have "\<not> isl (translate id ''Main'' False ?files)" by code_simp
  then have r: "translate id ''Main'' False ?files = Inr (projr (translate id ''Main'' False ?files))"
    by simp
  have b: "begins (projr (translate id ''Main'' False ?files)) = [AStr ''Sys.init'', AStr ''Main.f'']"
    by code_simp
  from emitted_functions_are_reachable[OF o p t r] b show ?thesis by auto
qed

end
